theory Spec2Isabelle
  imports Complex_Main "HOL-Library.AList" "HOL-Library.Multiset"
begin

section \<open>The live daily attendance poller (live\_daily\_attendance.py)\<close>

text \<open>
  A shallow embedding of \<^verbatim>\<open>src/live_daily_attendance.py\<close>. The sqlite database, the
  CSV files and the console are one explicit \<open>world\<close> value that every function takes and
  returns. A Python exception is the \<open>Inl\<close> branch of a sum; the world is returned next to
  it, since what a function wrote before it raised stays written.
\<close>

subsection \<open>Calendar values and their text forms\<close>

text \<open>
  \<^verbatim>\<open>datetime\<close> and \<^verbatim>\<open>date\<close> of the standard library, as records of their fields.
\<close>

record date =
  year :: nat
  month :: nat
  day :: nat

record datetime =
  dt_year :: nat
  dt_month :: nat
  dt_day :: nat
  hour :: nat
  minute :: nat
  second :: nat

definition date_of :: "datetime \<Rightarrow> date" where
  "date_of dt = \<lparr>year = dt_year dt, month = dt_month dt, day = dt_day dt\<rparr>"

definition digit :: "nat \<Rightarrow> char" where
  "digit n = ''0123456789'' ! (n mod 10)"

definition pad2 :: "nat \<Rightarrow> string" where
  "pad2 n = [digit (n div 10), digit n]"

definition pad4 :: "nat \<Rightarrow> string" where
  "pad4 n = [digit (n div 1000), digit (n div 100), digit (n div 10), digit n]"

text \<open>\<^verbatim>\<open>date.isoformat()\<close>: \<^verbatim>\<open>YYYY-MM-DD\<close>.\<close>

definition isoformat :: "date \<Rightarrow> string" where
  "isoformat d = pad4 (year d) @ ''-'' @ pad2 (month d) @ ''-'' @ pad2 (day d)"

text \<open>
  \<^verbatim>\<open>dt.strftime('%Y-%m-%d %H:%M:%S')\<close>. The C library behind \<^verbatim>\<open>%Y\<close> (glibc) writes the
  year as it is, with no zeros in front of a year below 1000, where \<^verbatim>\<open>isoformat\<close> pads to
  four digits. The years of a \<^verbatim>\<open>datetime\<close> are 1 to 9999.
\<close>

definition year_text :: "nat \<Rightarrow> string" where
  "year_text y =
     (if y < 10 then [digit y]
      else if y < 100 then [digit (y div 10), digit y]
      else if y < 1000 then [digit (y div 100), digit (y div 10), digit y]
      else pad4 y)"

definition strftime :: "datetime \<Rightarrow> string" where
  "strftime dt =
     year_text (dt_year dt) @ ''-'' @ pad2 (dt_month dt) @ ''-'' @ pad2 (dt_day dt) @ '' '' @
     pad2 (hour dt) @ '':'' @ pad2 (minute dt) @ '':'' @ pad2 (second dt)"

definition is_leap :: "nat \<Rightarrow> bool" where
  "is_leap y = (y mod 4 = 0 \<and> (y mod 100 \<noteq> 0 \<or> y mod 400 = 0))"

definition days_in_month :: "nat \<Rightarrow> nat \<Rightarrow> nat" where
  "days_in_month y m =
     (if m = 2 then (if is_leap y then 29 else 28)
      else if m = 4 \<or> m = 6 \<or> m = 9 \<or> m = 11 then 30 else 31)"

subsection \<open>Exceptions, effects and the world\<close>

datatype exn =
    Sqlite_error
  | File_not_found string
  | Connection_error
  | System_exit
  | Overflow_error
  | Value_error

text \<open>The statements the program sends to sqlite; the environment says which of them fail.\<close>

datatype db_op =
    Select_meta string
  | Replace_meta string string
  | Insert_processed int
  | Select_processed int
  | Select_present string int
  | Replace_present string int string

text \<open>The lines the program prints, without the wall-clock prefix of each line.\<close>

datatype message =
    Created string
  | Unknown_user int string
  | Scanned_again string int string "string option"
  | Marked_present string int string string
  | Poll_error exn
  | New_day string string
  | Started string

text \<open>
  The writes and prints of a run, in the order the program performs them. The field
  \<open>trace\<close> of the world records them; no function reads it.
\<close>

datatype effect =
    Printed message
  | Db_processed_inserted int
  | Db_present_replaced string int string
  | Db_meta_replaced string string
  | File_written string

record csv_row =
  rid :: int
  rname :: string
  rstatus :: string
  rfirst_checkin_local :: string

text \<open>
  The three tables of \<^verbatim>\<open>init_db\<close>: \<open>meta\<close> with primary key \<open>k\<close>, \<open>processed\<close> with the
  one column \<open>device_epoch\<close> as primary key, \<open>present\<close> with primary key \<open>(day, user_id)\<close>.
\<close>

record database =
  meta :: "string \<rightharpoonup> string"
  processed :: "int set"
  present :: "string \<times> int \<rightharpoonup> string"

text \<open>
  A CSV file is its data rows, as \<^verbatim>\<open>csv.DictReader\<close> yields them after the header; the
  \<open>id\<close> column is kept as the integer that \<^verbatim>\<open>int(rr['id'])\<close> reads back from what
  \<^verbatim>\<open>csv.writer\<close> wrote. \<open>users_csv\<close> is the roster file \<^verbatim>\<open>users.csv\<close>, \<open>None\<close> when it
  does not exist.
\<close>

record world =
  db :: database
  files :: "string \<rightharpoonup> csv_row list"
  users_csv :: "(int \<times> string) list option"
  trace :: "effect list"

text \<open>
  What the program cannot decide: which sqlite statements raise, and the local time zone
  behind \<^verbatim>\<open>datetime.fromtimestamp\<close>, which is \<open>None\<close> where the call raises (a time outside
  the years 1 to 9999: \<^verbatim>\<open>ValueError\<close>, \<^verbatim>\<open>OverflowError\<close> or \<^verbatim>\<open>OSError\<close>, all of them
  \<open>Value_error\<close> here). \<open>rollover_hour\<close> is the constant \<^verbatim>\<open>ROLLOVER_HOUR\<close> of the
  configuration block.
\<close>

record env =
  db_fault :: "db_op \<Rightarrow> bool"
  fromtimestamp :: "int \<Rightarrow> datetime option"
  rollover_hour :: nat

text \<open>A device record: \<^verbatim>\<open>.user_id\<close> and \<^verbatim>\<open>.timestamp\<close>, the latter a number of seconds.\<close>

record attendance =
  user_id :: int
  timestamp :: rat

text \<open>What \<^verbatim>\<open>zk.connect()\<close> and \<^verbatim>\<open>conn.get_attendance()\<close> give in one poll.\<close>

datatype device = Unreachable | Records "attendance list"

text \<open>The dict \<^verbatim>\<open>users\<close>, in insertion order: person id to name.\<close>

type_synonym users = "(int \<times> string) list"

text \<open>Python's \<^verbatim>\<open>int(x)\<close> on a number: truncation towards zero.\<close>

definition py_int :: "rat \<Rightarrow> int" where
  "py_int x = (if 0 \<le> x then \<lfloor>x\<rfloor> else \<lceil>x\<rceil>)"

text \<open>Python's truth value of \<^verbatim>\<open>existing\<close>: neither \<^verbatim>\<open>None\<close> nor the empty string.\<close>

definition truthy :: "string option \<Rightarrow> bool" where
  "truthy v = (case v of None \<Rightarrow> False | Some s \<Rightarrow> s \<noteq> [])"

definition emit :: "effect list \<Rightarrow> world \<Rightarrow> world" where
  "emit es w = w\<lparr>trace := trace w @ es\<rparr>"

subsection \<open>The state store\<close>

definition init_db :: "world \<Rightarrow> world" where
  "init_db w = w"

text \<open>
  \<^verbatim>\<open>load_users\<close>: a missing file ends the process (\<^verbatim>\<open>SystemExit\<close>); a later row with an
  id already read replaces the name and keeps the place of the earlier one, as the dict
  assignment does. The rows are taken as already read: an integer id and a name.
\<close>

definition load_users :: "world \<Rightarrow> exn + users" where
  "load_users w =
     (case users_csv w of
        None \<Rightarrow> Inl System_exit
      | Some rows \<Rightarrow> Inr (fold (\<lambda>(uid, nm) us. AList.update uid nm us) rows []))"

definition get_meta :: "env \<Rightarrow> world \<Rightarrow> string \<Rightarrow> exn + string option" where
  "get_meta e w k = (if db_fault e (Select_meta k) then Inl Sqlite_error else Inr (meta (db w) k))"

definition set_meta :: "env \<Rightarrow> string \<Rightarrow> string \<Rightarrow> world \<Rightarrow> (exn + unit) \<times> world" where
  "set_meta e k v w =
     (if db_fault e (Replace_meta k v) then (Inl Sqlite_error, w)
      else (Inr (),
            emit [Db_meta_replaced k v] (w\<lparr>db := (db w)\<lparr>meta := (meta (db w))(k \<mapsto> v)\<rparr>\<rparr>)))"

text \<open>
  \<^verbatim>\<open>mark_epoch_processed\<close> has no \<^verbatim>\<open>return\<close> statement: its value is \<^verbatim>\<open>None\<close> on both
  paths, the insert and the caught \<^verbatim>\<open>IntegrityError\<close> of a key already there.
\<close>

datatype pyval = PyNone | PyBool bool

definition mark_epoch_processed :: "env \<Rightarrow> int \<Rightarrow> world \<Rightarrow> (exn + pyval) \<times> world" where
  "mark_epoch_processed e epoch w =
     (if db_fault e (Insert_processed epoch) then (Inl Sqlite_error, w)
      else if epoch \<in> processed (db w) then (Inr PyNone, w)
      else (Inr PyNone,
            emit [Db_processed_inserted epoch]
              (w\<lparr>db := (db w)\<lparr>processed := insert epoch (processed (db w))\<rparr>\<rparr>)))"

definition is_epoch_processed :: "env \<Rightarrow> world \<Rightarrow> int \<Rightarrow> exn + bool" where
  "is_epoch_processed e w epoch =
     (if db_fault e (Select_processed epoch) then Inl Sqlite_error
      else Inr (epoch \<in> processed (db w)))"

definition day_str_for_dt :: "datetime \<Rightarrow> string" where
  "day_str_for_dt dt = isoformat (date_of dt)"

definition is_user_marked_today :: "env \<Rightarrow> world \<Rightarrow> int \<Rightarrow> string \<Rightarrow> exn + string option" where
  "is_user_marked_today e w uid daystr =
     (if db_fault e (Select_present daystr uid) then Inl Sqlite_error
      else Inr (present (db w) (daystr, uid)))"

definition mark_user_present ::
  "env \<Rightarrow> int \<Rightarrow> string \<Rightarrow> string \<Rightarrow> world \<Rightarrow> (exn + unit) \<times> world" where
  "mark_user_present e uid daystr first_checkin_local w =
     (if db_fault e (Replace_present daystr uid first_checkin_local) then (Inl Sqlite_error, w)
      else (Inr (),
            emit [Db_present_replaced daystr uid first_checkin_local]
              (w\<lparr>db := (db w)\<lparr>present :=
                  (present (db w))((daystr, uid) \<mapsto> first_checkin_local)\<rparr>\<rparr>)))"

subsection \<open>The daily ledger file\<close>

text \<open>\<^verbatim>\<open>os.path.join(OUTPUT_DIR, f"attendance_{day}.csv")\<close> with \<^verbatim>\<open>OUTPUT_DIR = '.'\<close>.\<close>

definition csv_path :: "string \<Rightarrow> string" where
  "csv_path daystr = ''./attendance_'' @ daystr @ ''.csv''"

text \<open>\<^verbatim>\<open>users[uid]['name']\<close>; every caller has checked that \<open>uid\<close> is a key.\<close>

definition user_name :: "users \<Rightarrow> int \<Rightarrow> string" where
  "user_name users uid = (case map_of users uid of Some nm \<Rightarrow> nm | None \<Rightarrow> [])"

definition absent_row :: "users \<Rightarrow> int \<Rightarrow> csv_row" where
  "absent_row users uid =
     \<lparr>rid = uid, rname = user_name users uid, rstatus = ''Absent'', rfirst_checkin_local = []\<rparr>"

definition make_daily_csv :: "env \<Rightarrow> users \<Rightarrow> string \<Rightarrow> world \<Rightarrow> (exn + string) \<times> world" where
  "make_daily_csv e users daystr w =
     (let filename = csv_path daystr;
          w1 = emit [File_written filename]
                 (w\<lparr>files := (files w)(filename \<mapsto>
                       map (absent_row users) (sort (map fst users)))\<rparr>)
      in case set_meta e ''current_csv_date'' daystr w1 of
           (Inl x, w2) \<Rightarrow> (Inl x, w2)
         | (Inr _, w2) \<Rightarrow> (Inr filename, emit [Printed (Created filename)] w2))"

definition mark_row :: "int \<Rightarrow> string \<Rightarrow> csv_row \<Rightarrow> csv_row" where
  "mark_row uid checkin_str rr =
     (if rid rr = uid \<and> rstatus rr \<noteq> ''Present''
      then rr\<lparr>rstatus := ''Present'', rfirst_checkin_local := checkin_str\<rparr>
      else rr)"

definition update_csv_mark_present ::
  "string \<Rightarrow> int \<Rightarrow> string \<Rightarrow> world \<Rightarrow> (exn + bool) \<times> world" where
  "update_csv_mark_present filename uid checkin_str w =
     (case files w filename of
        None \<Rightarrow> (Inl (File_not_found filename), w)
      | Some rows \<Rightarrow>
          (let tmp_rows = map (mark_row uid checkin_str) rows;
               updated = list_ex (\<lambda>rr. rid rr = uid \<and> rstatus rr \<noteq> ''Present'') rows
           in if updated
              then (Inr True,
                    emit [File_written filename] (w\<lparr>files := (files w)(filename \<mapsto> tmp_rows)\<rparr>))
              else (Inr False, w)))"

definition device_epoch_to_local_str :: "env \<Rightarrow> int \<Rightarrow> exn + string" where
  "device_epoch_to_local_str e epoch =
     (case fromtimestamp e epoch of
        None \<Rightarrow> Inl Value_error
      | Some dt \<Rightarrow> Inr (strftime dt))"

text \<open>\<^verbatim>\<open>os.path.basename\<close>: what follows the last slash.\<close>

definition basename :: "string \<Rightarrow> string" where
  "basename path = rev (takeWhile (\<lambda>c. c \<noteq> CHR ''/'') (rev path))"

subsection \<open>One poll\<close>

text \<open>
  The body of the \<^verbatim>\<open>for rec in recs\<close> loop of \<^verbatim>\<open>poll_once\<close>. \<open>Inr ()\<close> is the end of the
  body or a \<^verbatim>\<open>continue\<close>; \<open>Inl x\<close> is an exception leaving the loop: a failing sqlite
  statement, a ledger file that does not exist, or a timestamp that
  \<^verbatim>\<open>datetime.fromtimestamp\<close> refuses where the body formats the time of the event (in each
  of the three prints and for the day of the event).
\<close>

definition poll_rec :: "env \<Rightarrow> users \<Rightarrow> string \<Rightarrow> attendance \<Rightarrow> world \<Rightarrow> (exn + unit) \<times> world" where
  "poll_rec e users csvfile r w =
     (let epoch = py_int (timestamp r) in
      case is_epoch_processed e w epoch of
        Inl x \<Rightarrow> (Inl x, w)
      | Inr True \<Rightarrow> (Inr (), w)
      | Inr False \<Rightarrow>
          (let uid = user_id r in
           case mark_epoch_processed e epoch w of
             (Inl x, w1) \<Rightarrow> (Inl x, w1)
           | (Inr _, w1) \<Rightarrow>
               if map_of users uid = None
               then (case device_epoch_to_local_str e epoch of
                       Inl x \<Rightarrow> (Inl x, w1)
                     | Inr s \<Rightarrow> (Inr (), emit [Printed (Unknown_user uid s)] w1))
               else
                 (case fromtimestamp e epoch of
                    None \<Rightarrow> (Inl Value_error, w1)
                  | Some dt \<Rightarrow>
                      (let today = day_str_for_dt dt in
                       case is_user_marked_today e w1 uid today of
                         Inl x \<Rightarrow> (Inl x, w1)
                       | Inr existing \<Rightarrow>
                           if truthy existing
                           then (case device_epoch_to_local_str e epoch of
                                   Inl x \<Rightarrow> (Inl x, w1)
                                 | Inr s \<Rightarrow>
                                     (Inr (),
                                      emit [Printed (Scanned_again (user_name users uid) uid s
                                              existing)] w1))
                           else
                             (case device_epoch_to_local_str e epoch of
                                Inl x \<Rightarrow> (Inl x, w1)
                              | Inr checkin_str \<Rightarrow>
                                  (case update_csv_mark_present csvfile uid checkin_str w1 of
                                     (Inl x, w2) \<Rightarrow> (Inl x, w2)
                                   | (Inr marked, w2) \<Rightarrow>
                                       (case mark_user_present e uid today checkin_str w2 of
                                          (Inl x, w3) \<Rightarrow> (Inl x, w3)
                                        | (Inr _, w3) \<Rightarrow>
                                            (Inr (),
                                             emit [Printed (Marked_present
                                                     (user_name users uid) uid checkin_str
                                                     (basename csvfile))] w3))))))))"

text \<open>The loop: the first exception ends it, with the world as it is then.\<close>

fun poll_loop :: "env \<Rightarrow> users \<Rightarrow> string \<Rightarrow> attendance list \<Rightarrow> world \<Rightarrow> (exn + unit) \<times> world" where
  "poll_loop e users csvfile [] w = (Inr (), w)"
| "poll_loop e users csvfile (r # rs) w =
     (case poll_rec e users csvfile r w of
        (Inl x, w1) \<Rightarrow> (Inl x, w1)
      | (Inr _, w1) \<Rightarrow> poll_loop e users csvfile rs w1)"

text \<open>
  \<^verbatim>\<open>poll_once\<close>: connect, read, sort by timestamp (\<^verbatim>\<open>sorted\<close> is stable), run the loop;
  \<^verbatim>\<open>except Exception\<close> prints the poll error. Nothing is raised to the caller.
\<close>

definition poll_once :: "env \<Rightarrow> users \<Rightarrow> string \<Rightarrow> device \<Rightarrow> world \<Rightarrow> world" where
  "poll_once e users csvfile dev w =
     (case dev of
        Unreachable \<Rightarrow> emit [Printed (Poll_error Connection_error)] w
      | Records recs \<Rightarrow>
          (case poll_loop e users csvfile (sort_key timestamp recs) w of
             (Inl x, w1) \<Rightarrow> emit [Printed (Poll_error x)] w1
           | (Inr _, w1) \<Rightarrow> w1))"

subsection \<open>The day check and the main loop\<close>

text \<open>\<^verbatim>\<open>(now - timedelta(days=1)).date()\<close>; before 0001-01-01 there is no date.\<close>

definition minus_one_day :: "date \<Rightarrow> exn + date" where
  "minus_one_day d =
     (if 1 < day d then Inr (d\<lparr>day := day d - 1\<rparr>)
      else if 1 < month d
      then Inr (d\<lparr>month := month d - 1, day := days_in_month (year d) (month d - 1)\<rparr>)
      else if 1 < year d then Inr \<lparr>year = year d - 1, month = 12, day = 31\<rparr>
      else Inl Overflow_error)"

definition active_day :: "env \<Rightarrow> datetime \<Rightarrow> exn + date" where
  "active_day e now =
     (if hour now < rollover_hour e then minus_one_day (date_of now) else Inr (date_of now))"

definition ensure_csv_for_today ::
  "env \<Rightarrow> datetime \<Rightarrow> users \<Rightarrow> world \<Rightarrow> (exn + string \<times> string) \<times> world" where
  "ensure_csv_for_today e now users w =
     (case active_day e now of
        Inl x \<Rightarrow> (Inl x, w)
      | Inr d \<Rightarrow>
          (let daystr = isoformat d in
           case get_meta e w ''current_csv_date'' of
             Inl x \<Rightarrow> (Inl x, w)
           | Inr current \<Rightarrow>
               (let csvfile = csv_path daystr in
                if current \<noteq> Some daystr \<or> files w csvfile = None
                then (case make_daily_csv e users daystr w of
                        (Inl x, w1) \<Rightarrow> (Inl x, w1)
                      | (Inr _, w1) \<Rightarrow> (Inr (csvfile, daystr), w1))
                else (Inr (csvfile, daystr), w))))"

text \<open>The local variables of \<^verbatim>\<open>main_loop\<close> that live across iterations.\<close>

record loop_state =
  ls_users :: users
  ls_daystr :: string

text \<open>
  One iteration of \<^verbatim>\<open>while True\<close> in \<^verbatim>\<open>main_loop\<close>, at wall-clock time \<open>now\<close>, with
  \<open>dev\<close> what the device answers. An \<open>Inl\<close> result is an exception that nothing catches:
  the process ends.
\<close>

definition main_loop_tick ::
  "env \<Rightarrow> datetime \<Rightarrow> device \<Rightarrow> loop_state \<Rightarrow> world \<Rightarrow> (exn + loop_state) \<times> world" where
  "main_loop_tick e now dev ls w =
     (case ensure_csv_for_today e now (ls_users ls) w of
        (Inl x, w1) \<Rightarrow> (Inl x, w1)
      | (Inr (csvfile, newday), w1) \<Rightarrow>
          if newday \<noteq> ls_daystr ls
          then (case load_users w1 of
                  Inl x \<Rightarrow> (Inl x, w1)
                | Inr users \<Rightarrow>
                    (Inr \<lparr>ls_users = users, ls_daystr = newday\<rparr>,
                     poll_once e users csvfile dev
                       (emit [Printed (New_day newday csvfile)] w1)))
          else (Inr ls, poll_once e (ls_users ls) csvfile dev w1))"

text \<open>Any number of iterations; environments, times and device answers are the inputs.\<close>

fun main_loop_ticks ::
  "(env \<times> datetime \<times> device) list \<Rightarrow> loop_state \<Rightarrow> world \<Rightarrow> (exn + loop_state) \<times> world" where
  "main_loop_ticks [] ls w = (Inr ls, w)"
| "main_loop_ticks ((e, now, dev) # ts) ls w =
     (case main_loop_tick e now dev ls w of
        (Inl x, w1) \<Rightarrow> (Inl x, w1)
      | (Inr ls1, w1) \<Rightarrow> main_loop_ticks ts ls1 w1)"

text \<open>
  \<^verbatim>\<open>main_loop\<close> from its first line: a start of the process at time \<open>now\<close>, then the
  iterations \<open>ticks\<close>, each with the environment, the time and the device answer it
  meets. The end of the list is the process being stopped between two iterations.
\<close>

definition main_loop ::
  "env \<Rightarrow> datetime \<Rightarrow> (env \<times> datetime \<times> device) list \<Rightarrow> world \<Rightarrow> (exn + loop_state) \<times> world" where
  "main_loop e now ticks w =
     (let w0 = init_db w in
      case load_users w0 of
        Inl x \<Rightarrow> (Inl x, w0)
      | Inr users \<Rightarrow>
          (case ensure_csv_for_today e now users w0 of
             (Inl x, w1) \<Rightarrow> (Inl x, w1)
           | (Inr (csvfile, daystr), w1) \<Rightarrow>
               main_loop_ticks ticks \<lparr>ls_users = users, ls_daystr = daystr\<rparr>
                 (emit [Printed (Started daystr)] w1)))"

subsection \<open>A time zone for the examples: UTC\<close>

text \<open>
  \<^verbatim>\<open>datetime.fromtimestamp\<close> under \<^verbatim>\<open>TZ=UTC\<close>: the civil date of a day number counted from
  1970-01-01 in the proleptic Gregorian calendar, and the time of day.
\<close>

definition utc_date_of_days :: "int \<Rightarrow> date" where
  "utc_date_of_days z =
     (let z1 = z + 719468;
          era = z1 div 146097;
          doe = z1 - era * 146097;
          yoe = (doe - doe div 1460 + doe div 36524 - doe div 146096) div 365;
          doy = doe - (365 * yoe + yoe div 4 - yoe div 100);
          mp = (5 * doy + 2) div 153;
          d = doy - (153 * mp + 2) div 5 + 1;
          m = (if mp < 10 then mp + 3 else mp - 9);
          y = yoe + era * 400 + (if m \<le> 2 then 1 else 0)
      in \<lparr>year = nat y, month = nat m, day = nat d\<rparr>)"

text \<open>
  The first second of the year 1 is \<open>- 62135596800\<close>, the last of the year 9999 is
  \<open>253402300799\<close>; outside them \<^verbatim>\<open>datetime.fromtimestamp\<close> raises.
\<close>

definition utc :: "int \<Rightarrow> datetime option" where
  "utc t =
     (if t < - 62135596800 \<or> 253402300799 < t then None
      else let d = utc_date_of_days (t div 86400); s = nat (t mod 86400)
           in Some \<lparr>dt_year = year d, dt_month = month d, dt_day = day d,
                    hour = s div 3600, minute = s div 60 mod 60, second = s mod 60\<rparr>)"

text \<open>An environment in which no sqlite statement fails, with midnight rollover.\<close>

definition calm :: env where
  "calm = \<lparr>db_fault = (\<lambda>_. False), fromtimestamp = utc, rollover_hour = 0\<rparr>"

text \<open>
  An environment that differs from \<open>calm\<close> in one statement: writing the presence marker
  of person 1 for the scan of 2024-01-01 08:00:00 fails.
\<close>

definition flaky :: env where
  "flaky = calm\<lparr>db_fault :=
     (\<lambda>op. op = Replace_present ''2024-01-01'' 1 ''2024-01-01 08:00:00'')\<rparr>"

subsection \<open>Notions the properties are stated with\<close>

text \<open>
  \<open>later w w'\<close>: the world \<open>w'\<close> comes after \<open>w\<close> in some history. A history is any
  sequence of the three database writes of the program, in any environment and with any
  arguments, and of steps that leave the sqlite database as it is: the ledger writes and
  the prints of the program, and whatever is done to the files from outside (the operator
  edits \<^verbatim>\<open>users.csv\<close>, removes a ledger file). Every run of the loop body, of
  \<^verbatim>\<open>poll_once\<close> and of \<^verbatim>\<open>main_loop\<close>, restarted any number of times, is such a history.
\<close>

inductive later :: "world \<Rightarrow> world \<Rightarrow> bool" where
  later_refl: "later w w"
| later_processed: "later w w1 \<Longrightarrow> later w (snd (mark_epoch_processed e k w1))"
| later_present: "later w w1 \<Longrightarrow> later w (snd (mark_user_present e uid d s w1))"
| later_meta: "later w w1 \<Longrightarrow> later w (snd (set_meta e k v w1))"
| later_other: "later w w1 \<Longrightarrow> db w2 = db w1 \<Longrightarrow> later w w2"

text \<open>
  The events of a batch that pass both checks at the head of the loop body, given the
  set \<open>S\<close> of keys already in \<open>processed\<close>: the key is new when the event is met, and the
  person is in the roster.
\<close>

fun qualifying :: "users \<Rightarrow> int set \<Rightarrow> attendance list \<Rightarrow> attendance list" where
  "qualifying users S [] = []"
| "qualifying users S (r # rs) =
     (if py_int (timestamp r) \<in> S then qualifying users S rs
      else (if map_of users (user_id r) = None then [] else [r]) @
           qualifying users (insert (py_int (timestamp r)) S) rs)"

text \<open>
  The day an event is attributed to, and the text of its time; \<open>None\<close> for a timestamp
  that \<^verbatim>\<open>datetime.fromtimestamp\<close> refuses.
\<close>

definition event_day :: "env \<Rightarrow> attendance \<Rightarrow> string option" where
  "event_day e r = map_option day_str_for_dt (fromtimestamp e (py_int (timestamp r)))"

definition event_str :: "env \<Rightarrow> attendance \<Rightarrow> string option" where
  "event_str e r = map_option strftime (fromtimestamp e (py_int (timestamp r)))"

text \<open>
  \<open>passes_check e w r\<close>: run on \<open>r\<close> in the world \<open>w\<close>, the loop body gets past the
  \<^verbatim>\<open>is_epoch_processed\<close> check and the insert of the key, that is, it reaches the roster
  check and the presence logic.
\<close>

definition passes_check :: "env \<Rightarrow> world \<Rightarrow> attendance \<Rightarrow> bool" where
  "passes_check e w r =
     (is_epoch_processed e w (py_int (timestamp r)) = Inr False \<and>
      fst (mark_epoch_processed e (py_int (timestamp r)) w) = Inr PyNone)"

text \<open>
  The qualifying events of a batch for person \<open>p\<close> on day \<open>d\<close>, in batch order, and the
  entry of the present table for \<open>(d, p)\<close> that the first of them determines when the
  entry before the batch is \<open>old\<close>.
\<close>

definition scans_of ::
  "env \<Rightarrow> users \<Rightarrow> int set \<Rightarrow> attendance list \<Rightarrow> string \<Rightarrow> int \<Rightarrow> attendance list" where
  "scans_of e users S rs d p =
     filter (\<lambda>r. user_id r = p \<and> event_day e r = Some d) (qualifying users S rs)"

definition first_seen ::
  "env \<Rightarrow> users \<Rightarrow> int set \<Rightarrow> attendance list \<Rightarrow> string \<Rightarrow> int \<Rightarrow> string option
     \<Rightarrow> string option" where
  "first_seen e users S rs d p old =
     (if truthy old then old
      else case scans_of e users S rs d p of [] \<Rightarrow> old | r # _ \<Rightarrow> event_str e r)"

text \<open>\<open>precedes a b es\<close>: after the first \<open>a\<close> in \<open>es\<close> there is a \<open>b\<close>.\<close>

fun precedes :: "effect \<Rightarrow> effect \<Rightarrow> effect list \<Rightarrow> bool" where
  "precedes a b [] = False"
| "precedes a b (x # xs) = (if x = a then b \<in> set xs else precedes a b xs)"

subsection \<open>Values for the examples\<close>

definition roster :: users where
  "roster = [(1, ''Ann''), (2, ''Bob'')]"

definition noon :: datetime where
  "noon = \<lparr>dt_year = 2024, dt_month = 1, dt_day = 1, hour = 12, minute = 0, second = 0\<rparr>"

text \<open>Three moments: 08:00:00 and 08:30:00 of 2024-01-01, and 00:02:00 of 2024-01-02.\<close>

definition eight :: datetime where
  "eight = \<lparr>dt_year = 2024, dt_month = 1, dt_day = 1, hour = 8, minute = 0, second = 0\<rparr>"

definition half_past :: datetime where
  "half_past = \<lparr>dt_year = 2024, dt_month = 1, dt_day = 1, hour = 8, minute = 30, second = 0\<rparr>"

definition two_past :: datetime where
  "two_past = \<lparr>dt_year = 2024, dt_month = 1, dt_day = 2, hour = 0, minute = 2, second = 0\<rparr>"

definition scan :: "int \<Rightarrow> rat \<Rightarrow> attendance" where
  "scan uid t = \<lparr>user_id = uid, timestamp = t\<rparr>"

text \<open>
  The world after the ledger of 2024-01-01 has been made for Ann and Bob: nothing
  processed, nobody present.
\<close>

definition morning :: world where
  "morning =
     \<lparr>db = \<lparr>meta = [''current_csv_date'' \<mapsto> ''2024-01-01''], processed = {},
             present = Map.empty\<rparr>,
      files = [''./attendance_2024-01-01.csv'' \<mapsto>
                 [\<lparr>rid = 1, rname = ''Ann'', rstatus = ''Absent'', rfirst_checkin_local = []\<rparr>,
                  \<lparr>rid = 2, rname = ''Bob'', rstatus = ''Absent'', rfirst_checkin_local = []\<rparr>]],
      users_csv = Some [(1, ''Ann''), (2, ''Bob'')],
      trace = []\<rparr>"

text \<open>
  Five past midnight of the next day, and the world \<open>morning\<close> after the operator has
  added a third person to \<^verbatim>\<open>users.csv\<close>.
\<close>

definition dawn :: datetime where
  "dawn = \<lparr>dt_year = 2024, dt_month = 1, dt_day = 2, hour = 0, minute = 5, second = 0\<rparr>"

definition enrolled :: world where
  "enrolled = morning\<lparr>users_csv := Some [(1, ''Ann''), (2, ''Bob''), (3, ''Cy'')]\<rparr>"

section \<open>Properties\<close>

subsection \<open>What each operation leaves alone\<close>

lemma db_emit [simp]: "db (emit es w) = db w"
  and files_emit [simp]: "files (emit es w) = files w"
  and users_csv_emit [simp]: "users_csv (emit es w) = users_csv w"
  and trace_emit [simp]: "trace (emit es w) = trace w @ es"
  by (simp_all add: emit_def)

lemma poll_rec_skip:
  "py_int (timestamp r) \<in> processed (db w) \<Longrightarrow> snd (poll_rec e users csvfile r w) = w"
  by (simp add: poll_rec_def is_epoch_processed_def Let_def)

lemma processed_mark_epoch:
  "processed (db (snd (mark_epoch_processed e k w))) =
     (if db_fault e (Insert_processed k) then processed (db w) else insert k (processed (db w)))"
  by (auto simp: mark_epoch_processed_def)

lemma db_update_csv [simp]: "db (snd (update_csv_mark_present f uid s w)) = db w"
  by (simp add: update_csv_mark_present_def Let_def split: option.splits)

lemma processed_mark_user_present [simp]:
  "processed (db (snd (mark_user_present e uid d s w))) = processed (db w)"
  by (simp add: mark_user_present_def)

lemma processed_set_meta [simp]:
  "processed (db (snd (set_meta e k v w))) = processed (db w)"
  by (simp add: set_meta_def)

subsection \<open>Runs of the program are histories\<close>

lemma later_trans: "later w1 w2 \<Longrightarrow> later w0 w1 \<Longrightarrow> later w0 w2"
  by (induction rule: later.induct) (auto intro: later.intros)

lemma later_emit: "later w w1 \<Longrightarrow> later w (emit es w1)"
  by (rule later_other [where ?w1.0 = w1]) simp_all

lemma later_update_csv: "later w w1 \<Longrightarrow> later w (snd (update_csv_mark_present f uid s w1))"
  by (rule later_other [where ?w1.0 = w1]) simp_all

lemma later_poll_rec: "later w w1 \<Longrightarrow> later w (snd (poll_rec e users csvfile r w1))"
  unfolding poll_rec_def Let_def
  by (auto simp: split_beta split: sum.splits bool.splits option.splits
      intro!: later_emit later_present later_update_csv later_processed)

lemma later_poll_loop: "later w w1 \<Longrightarrow> later w (snd (poll_loop e users csvfile rs w1))"
proof (induction rs arbitrary: w1)
  case Nil
  then show ?case by simp
next
  case (Cons r rs)
  have step: "later w (snd (poll_rec e users csvfile r w1))"
    using Cons.prems by (rule later_poll_rec)
  show ?case
  proof (cases "poll_rec e users csvfile r w1")
    case (Pair res w2)
    with step have l2: "later w w2" by simp
    show ?thesis
    proof (cases res)
      case (Inl x)
      with Pair l2 show ?thesis by simp
    next
      case (Inr u)
      with Pair Cons.IH [OF l2] show ?thesis by simp
    qed
  qed
qed

lemma later_poll_once: "later w w1 \<Longrightarrow> later w (poll_once e users csvfile dev w1)"
proof (cases dev)
  case Unreachable
  assume "later w w1"
  then show ?thesis using Unreachable by (simp add: poll_once_def later_emit)
next
  case (Records recs)
  assume l: "later w w1"
  have "later w (snd (poll_loop e users csvfile (sort_key timestamp recs) w1))"
    using l by (rule later_poll_loop)
  then show ?thesis using Records
    by (auto simp: poll_once_def split: prod.splits sum.splits intro: later_emit)
qed

lemma later_make_daily_csv: "later w w1 \<Longrightarrow> later w (snd (make_daily_csv e users d w1))"
proof -
  assume l: "later w w1"
  let ?w2 = "emit [File_written (csv_path d)]
      (w1\<lparr>files := (files w1)(csv_path d \<mapsto> map (absent_row users) (sort (map fst users)))\<rparr>)"
  have "later w ?w2" by (rule later_other [OF l]) simp
  then have "later w (snd (set_meta e ''current_csv_date'' d ?w2))" by (rule later_meta)
  then show ?thesis
    by (auto simp: make_daily_csv_def Let_def split_beta split: sum.splits intro: later_emit)
qed

lemma later_ensure: "later w w1 \<Longrightarrow> later w (snd (ensure_csv_for_today e now users w1))"
  unfolding ensure_csv_for_today_def Let_def
  by (auto simp: split_beta split: sum.splits intro: later_make_daily_csv)

lemma later_tick: "later w w1 \<Longrightarrow> later w (snd (main_loop_tick e now dev ls w1))"
  unfolding main_loop_tick_def
  by (auto simp: split_beta split: sum.splits
      intro!: later_poll_once later_emit later_ensure)

lemma later_ticks: "later w w1 \<Longrightarrow> later w (snd (main_loop_ticks ts ls w1))"
proof (induction ts arbitrary: ls w1)
  case Nil
  then show ?case by simp
next
  case (Cons t ts)
  obtain e now dev where t: "t = (e, now, dev)" by (cases t) auto
  have step: "later w (snd (main_loop_tick e now dev ls w1))"
    using Cons.prems by (rule later_tick)
  show ?case
  proof (cases "main_loop_tick e now dev ls w1")
    case (Pair res w2)
    with step have l2: "later w w2" by simp
    show ?thesis
    proof (cases res)
      case (Inl x)
      with Pair l2 t show ?thesis by simp
    next
      case (Inr ls1)
      with Pair Cons.IH [OF l2] t show ?thesis by simp
    qed
  qed
qed

lemma later_main_loop: "later w w1 \<Longrightarrow> later w (snd (main_loop e now ts w1))"
  unfolding main_loop_def Let_def init_db_def
  by (auto simp: split_beta split: sum.splits intro!: later_ticks later_emit later_ensure)

lemma later_keeps_processed: "later w w' \<Longrightarrow> processed (db w) \<subseteq> processed (db w')"
  by (induction rule: later.induct) (auto simp: processed_mark_epoch)


subsection \<open>Evaluating the examples\<close>

lemma utc_days_19723: "utc_date_of_days 19723 = \<lparr>year = 2024, month = 1, day = 1\<rparr>"
  by code_simp

lemma utc_days_19724: "utc_date_of_days 19724 = \<lparr>year = 2024, month = 1, day = 2\<rparr>"
  by code_simp

lemma utc_0800: "utc 1704096000 = Some eight"
  unfolding utc_def eight_def by (simp add: utc_days_19723)

lemma utc_0830: "utc 1704097800 = Some half_past"
  unfolding utc_def half_past_def by (simp add: utc_days_19723)

lemma utc_0002: "utc 1704153720 = Some two_past"
  unfolding utc_def two_past_def by (simp add: utc_days_19724)

lemma utc_year_10000: "utc 253402300800 = None"
  by (simp add: utc_def)

lemmas text_defs = strftime_def year_text_def isoformat_def date_of_def pad2_def pad4_def
  digit_def day_str_for_dt_def

lemma calm_simps:
  "db_fault calm op = False" "fromtimestamp calm = utc" "rollover_hour calm = 0"
  by (simp_all add: calm_def)

lemma str_0800: "strftime eight = ''2024-01-01 08:00:00''"
  and day_0800: "day_str_for_dt eight = ''2024-01-01''"
  by (simp_all add: eight_def text_defs)

lemma str_0830: "strftime half_past = ''2024-01-01 08:30:00''"
  and day_0830: "day_str_for_dt half_past = ''2024-01-01''"
  by (simp_all add: half_past_def text_defs)

lemma str_0002: "strftime two_past = ''2024-01-02 00:02:00''"
  and day_0002: "day_str_for_dt two_past = ''2024-01-02''"
  by (simp_all add: two_past_def text_defs)

lemma basename_ledgers:
  "basename ''./attendance_2024-01-01.csv'' = ''attendance_2024-01-01.csv''"
  "basename ''./attendance_2024-01-02.csv'' = ''attendance_2024-01-02.csv''"
  by (simp_all add: basename_def)

lemma py_int_whole: "py_int 1704096000 = 1704096000" "py_int 1704097800 = 1704097800"
  "py_int 1704153720 = 1704153720" "py_int 253402300800 = 253402300800"
  by (simp_all add: py_int_def)

lemma py_int_fraction: "py_int (8520480001 / 5) = 1704096000"
  by (simp add: py_int_def floor_eq_iff)

lemmas store_defs = is_epoch_processed_def mark_epoch_processed_def is_user_marked_today_def
  mark_user_present_def update_csv_mark_present_def truthy_def emit_def user_name_def mark_row_def
  device_epoch_to_local_str_def

lemmas example_simps = poll_rec_def scan_def Let_def store_defs roster_def morning_def
  calm_simps py_int_whole py_int_fraction utc_0800 utc_0830 utc_0002 utc_year_10000
  str_0800 day_0800 str_0830 day_0830 str_0002 day_0002 basename_ledgers

subsection \<open>What the store operations return and write\<close>

lemma fst_mark_epoch:
  "fst (mark_epoch_processed e k w) =
     (if db_fault e (Insert_processed k) then Inl Sqlite_error else Inr PyNone)"
  by (simp add: mark_epoch_processed_def)

lemma fst_mark_user_present:
  "fst (mark_user_present e uid d s w) =
     (if db_fault e (Replace_present d uid s) then Inl Sqlite_error else Inr ())"
  by (simp add: mark_user_present_def)

lemma present_mark_epoch [simp]:
  "present (db (snd (mark_epoch_processed e k w))) = present (db w)"
  by (simp add: mark_epoch_processed_def)

lemma present_mark_user_present:
  "present (db (snd (mark_user_present e uid d s w))) =
     (if db_fault e (Replace_present d uid s) then present (db w)
      else (present (db w))((d, uid) \<mapsto> s))"
  by (simp add: mark_user_present_def)

lemma files_mark_epoch [simp]: "files (snd (mark_epoch_processed e k w)) = files w"
  by (simp add: mark_epoch_processed_def)

lemma files_mark_user_present [simp]: "files (snd (mark_user_present e uid d s w)) = files w"
  by (simp add: mark_user_present_def)

lemma files_update_csv:
  "files w f \<noteq> None \<Longrightarrow> files (snd (update_csv_mark_present f uid s w)) f \<noteq> None"
  by (auto simp: update_csv_mark_present_def Let_def)

lemma fst_update_csv:
  "files w f \<noteq> None \<Longrightarrow> \<exists>b. fst (update_csv_mark_present f uid s w) = Inr b"
  by (auto simp: update_csv_mark_present_def Let_def)

lemma snd_mark_epoch_fault:
  "db_fault e (Insert_processed k) \<Longrightarrow> snd (mark_epoch_processed e k w) = w"
  by (simp add: mark_epoch_processed_def)

lemma flaky_simps:
  "db_fault flaky op = (op = Replace_present ''2024-01-01'' 1 ''2024-01-01 08:00:00'')"
  "fromtimestamp flaky = utc" "rollover_hour flaky = 0"
  by (simp_all add: flaky_def calm_def)

lemmas body_simps = split_beta is_epoch_processed_def is_user_marked_today_def fst_mark_epoch
  fst_mark_user_present processed_mark_epoch present_mark_user_present
  device_epoch_to_local_str_def

subsection \<open>C1: at-most-once application\<close>

lemma passes_check_new: "passes_check e w r \<Longrightarrow> py_int (timestamp r) \<notin> processed (db w)"
  by (auto simp: passes_check_def is_epoch_processed_def split: if_splits)

lemma poll_rec_idle:
  "\<not> passes_check e w r \<Longrightarrow> snd (poll_rec e users csvfile r w) = w"
  unfolding poll_rec_def Let_def passes_check_def
  by (auto simp: body_simps snd_mark_epoch_fault split: sum.splits bool.splits if_splits)

lemma processed_poll_rec:
  "passes_check e w r \<Longrightarrow>
     processed (db (snd (poll_rec e users csvfile r w))) =
       insert (py_int (timestamp r)) (processed (db w))"
  unfolding poll_rec_def Let_def passes_check_def
  by (auto simp: body_simps split: sum.splits bool.splits option.splits if_splits)

text \<open>
  Claim C1, as the code has it. Writing Ann's marker fails after the key of her scan has
  been inserted. The key is in \<open>processed\<close> and the marker is not written; when the device
  reports the scan again, with nothing failing, the poll skips it and changes nothing. The
  present table never shows this event, and the ledger shows it: not exactly once.
\<close>

theorem event_lost_after_fault:
  "(let w1 = poll_once flaky roster ''./attendance_2024-01-01.csv''
               (Records [scan 1 1704096000]) morning;
        w2 = poll_once calm roster ''./attendance_2024-01-01.csv''
               (Records [scan 1 1704096000]) w1
    in processed (db w1) = {1704096000} \<and>
       present (db w1) (''2024-01-01'', 1) = None \<and>
       w2 = w1 \<and>
       present (db w2) (''2024-01-01'', 1) = None \<and>
       map_option (map rstatus) (files w2 ''./attendance_2024-01-01.csv'') =
         Some [''Present'', ''Absent''])"
  by (simp add: poll_once_def example_simps flaky_simps)

text \<open>
  Claim C1, amended. The presence logic runs at most once per key. Unless the loop body
  gets past the \<^verbatim>\<open>is_epoch_processed\<close> check and the insert of the key, it leaves the world
  as it found it. Once it has got past them for an event \<open>r1\<close>, then in every later world
  of any history (the rest of the poll, later polls, after restarts) the key is in
  \<open>processed\<close>, and the body run on any event \<open>r2\<close> that carries the key does not get past
  the check again and returns the world unchanged, in every environment, for every roster
  and ledger path: the present table and the ledgers show the event at most once, and a
  replay changes no \<open>first_checkin_local\<close>. Whether they show it once is another matter:
  an event whose body fails after the insert is never applied.
\<close>

theorem at_most_once_application:
  "(\<not> passes_check e1 w r1 \<longrightarrow> snd (poll_rec e1 users1 csv1 r1 w) = w) \<and>
   (passes_check e1 w r1 \<and> later (snd (poll_rec e1 users1 csv1 r1 w)) w' \<and>
    py_int (timestamp r2) = py_int (timestamp r1) \<longrightarrow>
      py_int (timestamp r1) \<notin> processed (db w) \<and>
      py_int (timestamp r1) \<in> processed (db w') \<and>
      \<not> passes_check e2 w' r2 \<and>
      poll_rec e2 users2 csv2 r2 w' =
        (if db_fault e2 (Select_processed (py_int (timestamp r2))) then Inl Sqlite_error
         else Inr (), w'))"
proof -
  have idle: "snd (poll_rec e1 users1 csv1 r1 w) = w" if "\<not> passes_check e1 w r1"
    using that by (rule poll_rec_idle)
  have once: "py_int (timestamp r1) \<notin> processed (db w) \<and>
      py_int (timestamp r1) \<in> processed (db w') \<and>
      \<not> passes_check e2 w' r2 \<and>
      poll_rec e2 users2 csv2 r2 w' =
        (if db_fault e2 (Select_processed (py_int (timestamp r2))) then Inl Sqlite_error
         else Inr (), w')"
    if p: "passes_check e1 w r1"
      and l: "later (snd (poll_rec e1 users1 csv1 r1 w)) w'"
      and k: "py_int (timestamp r2) = py_int (timestamp r1)"
  proof -
    have new: "py_int (timestamp r1) \<notin> processed (db w)"
      using p by (rule passes_check_new)
    have "py_int (timestamp r1) \<in> processed (db (snd (poll_rec e1 users1 csv1 r1 w)))"
      using p by (simp add: processed_poll_rec)
    with later_keeps_processed [OF l] have k1: "py_int (timestamp r1) \<in> processed (db w')"
      by blast
    with k have k2: "py_int (timestamp r2) \<in> processed (db w')"
      by simp
    then have no: "\<not> passes_check e2 w' r2"
      using passes_check_new by blast
    from k2 have "poll_rec e2 users2 csv2 r2 w' =
        (if db_fault e2 (Select_processed (py_int (timestamp r2))) then Inl Sqlite_error
         else Inr (), w')"
      by (simp add: poll_rec_def is_epoch_processed_def Let_def)
    with new k1 no show ?thesis
      by blast
  qed
  from idle once show ?thesis
    by blast
qed

theorem at_most_once_application_witness:
  "(let w1 = snd (poll_rec calm roster ''./attendance_2024-01-01.csv'' (scan 1 1704096000)
                morning);
        w' = snd (main_loop calm noon
                [(calm, noon, Records [scan 1 1704096000, scan 2 1704097800])] w1)
    in passes_check calm morning (scan 1 1704096000) \<and>
       present (db w1) (''2024-01-01'', 1) = Some ''2024-01-01 08:00:00'' \<and>
       \<not> passes_check calm w' (scan 1 1704096000) \<and>
       poll_rec calm roster ''./attendance_2024-01-01.csv'' (scan 1 1704096000) w' =
         (Inr (), w'))"
proof -
  let ?r = "scan 1 1704096000"
  let ?w1 = "snd (poll_rec calm roster ''./attendance_2024-01-01.csv'' ?r morning)"
  let ?w' = "snd (main_loop calm noon
      [(calm, noon, Records [scan 1 1704096000, scan 2 1704097800])] ?w1)"
  have p: "passes_check calm morning ?r"
    by (simp add: passes_check_def example_simps)
  have l: "later ?w1 ?w'"
    by (rule later_main_loop [OF later_refl])
  have m: "present (db ?w1) (''2024-01-01'', 1) = Some ''2024-01-01 08:00:00''"
    by (simp add: example_simps)
  show ?thesis
    using p l m
      at_most_once_application [of calm morning ?r roster "''./attendance_2024-01-01.csv''"
        ?w' ?r calm roster "''./attendance_2024-01-01.csv''"]
    by (simp add: Let_def calm_simps)
qed

subsection \<open>C10: two events in one second\<close>

lemma poll_rec_done_processed:
  "poll_rec e users csvfile r w = (Inr u, w1) \<Longrightarrow> py_int (timestamp r) \<in> processed (db w1)"
  unfolding poll_rec_def Let_def
  by (auto simp: body_simps split: sum.splits bool.splits option.splits if_splits)

text \<open>
  Claim C10. The key of an event is its timestamp truncated to whole seconds. When the
  loop body has completed for an event \<open>r1\<close>, its key is in \<open>processed\<close>; from then on,
  in every later world of any history, the body run on an event \<open>r2\<close> with the same key
  (whoever its person is, marked or not) returns the world unchanged: no presence marker,
  no ledger change.
\<close>

theorem key_collision:
  assumes "py_int (timestamp r1) = py_int (timestamp r2)"
    and "poll_rec e1 users1 csv1 r1 w = (Inr (), w1)"
    and "later w1 w'"
  shows "snd (poll_rec e2 users2 csv2 r2 w') = w' \<and>
         present (db (snd (poll_rec e2 users2 csv2 r2 w'))) = present (db w') \<and>
         files (snd (poll_rec e2 users2 csv2 r2 w')) = files w'"
proof -
  from assms(2) have "py_int (timestamp r1) \<in> processed (db w1)"
    by (rule poll_rec_done_processed)
  with later_keeps_processed [OF assms(3)] assms(1)
  have "py_int (timestamp r2) \<in> processed (db w')"
    by auto
  then have "snd (poll_rec e2 users2 csv2 r2 w') = w'"
    by (rule poll_rec_skip)
  then show ?thesis by simp
qed

lemma ann_first:
  "poll_rec calm roster ''./attendance_2024-01-01.csv'' (scan 1 1704096000) morning =
     (Inr (), snd (poll_rec calm roster ''./attendance_2024-01-01.csv'' (scan 1 1704096000) morning))"
  by (simp add: example_simps)

theorem key_collision_witness:
  "let w1 = snd (poll_rec calm roster ''./attendance_2024-01-01.csv'' (scan 1 1704096000) morning);
       w2 = snd (poll_rec calm roster ''./attendance_2024-01-01.csv'' (scan 2 (8520480001 / 5)) w1)
   in w2 = w1 \<and> present (db w2) (''2024-01-01'', 2) = None \<and>
      map_option (map rstatus) (files w2 ''./attendance_2024-01-01.csv'') =
        Some [''Present'', ''Absent'']"
proof -
  let ?w1 = "snd (poll_rec calm roster ''./attendance_2024-01-01.csv'' (scan 1 1704096000) morning)"
  have k: "py_int (timestamp (scan 1 1704096000)) = py_int (timestamp (scan 2 (8520480001 / 5)))"
    by (simp add: scan_def py_int_whole py_int_fraction)
  have same: "snd (poll_rec calm roster ''./attendance_2024-01-01.csv'' (scan 2 (8520480001 / 5)) ?w1) = ?w1"
    using key_collision [OF k ann_first later_refl, of calm roster "''./attendance_2024-01-01.csv''"]
    by simp
  have p: "present (db ?w1) (''2024-01-01'', 2) = None"
    by (simp add: example_simps)
  have f: "map_option (map rstatus) (files ?w1 ''./attendance_2024-01-01.csv'') =
      Some [''Present'', ''Absent'']"
    by (simp add: example_simps)
  show ?thesis
    unfolding Let_def same using p f by simp
qed

subsection \<open>C8: the stored first check-in\<close>

lemma poll_rec_keeps_marker:
  "truthy (present (db w) (d, p)) \<Longrightarrow>
     present (db (snd (poll_rec e users csvfile r w))) (d, p) = present (db w) (d, p)"
  unfolding poll_rec_def Let_def
  by (auto simp: body_simps split: sum.splits bool.splits option.splits if_splits)

lemma poll_loop_keeps_marker:
  "truthy (present (db w) (d, p)) \<Longrightarrow>
     present (db (snd (poll_loop e users csvfile rs w))) (d, p) = present (db w) (d, p)"
proof (induction rs arbitrary: w)
  case Nil
  then show ?case by simp
next
  case (Cons r rs)
  let ?w1 = "snd (poll_rec e users csvfile r w)"
  have step: "present (db ?w1) (d, p) = present (db w) (d, p)"
    using Cons.prems by (rule poll_rec_keeps_marker)
  then have "truthy (present (db ?w1) (d, p))"
    using Cons.prems by simp
  from Cons.IH [OF this] step show ?case
    by (auto simp: split_beta split: sum.splits)
qed

lemma strftime_nonempty: "strftime dt \<noteq> []"
  by (simp add: strftime_def)

text \<open>Every value the loop body writes into the present table is a non-empty text.\<close>

lemma poll_rec_markers_nonempty:
  "\<forall>k. present (db w) k \<noteq> Some [] \<Longrightarrow>
     \<forall>k. present (db (snd (poll_rec e users csvfile r w))) k \<noteq> Some []"
  unfolding poll_rec_def Let_def
  by (auto simp: body_simps strftime_nonempty
      split: sum.splits bool.splits option.splits if_splits)

lemma poll_loop_markers_nonempty:
  "\<forall>k. present (db w) k \<noteq> Some [] \<Longrightarrow>
     \<forall>k. present (db (snd (poll_loop e users csvfile rs w))) k \<noteq> Some []"
proof (induction rs arbitrary: w)
  case Nil
  then show ?case by simp
next
  case (Cons r rs)
  from Cons.IH [OF poll_rec_markers_nonempty [OF Cons.prems, of e users csvfile r]]
  show ?case
    using poll_rec_markers_nonempty [OF Cons.prems, of e users csvfile r]
    by (auto simp: split_beta split: sum.splits)
qed

lemma poll_once_markers_nonempty:
  "\<forall>k. present (db w) k \<noteq> Some [] \<Longrightarrow>
     \<forall>k. present (db (poll_once e users csvfile dev w)) k \<noteq> Some []"
  using poll_loop_markers_nonempty [of w e users csvfile]
  by (cases dev) (auto simp: poll_once_def split_beta split: sum.splits)

text \<open>
  The store operation by itself does not keep the first value: \<^verbatim>\<open>mark_user_present\<close> is
  \<^verbatim>\<open>INSERT OR REPLACE\<close>, and called twice for one \<open>(day, user_id)\<close> it stores the second
  value. No run calls it so: the only call is behind the existence check of the loop
  body.
\<close>

lemma mark_user_present_replaces:
  "present (db (snd (mark_user_present calm 1 ''2024-01-01'' ''2024-01-01 08:30:00''
      (snd (mark_user_present calm 1 ''2024-01-01'' ''2024-01-01 08:00:00'' morning)))))
     (''2024-01-01'', 1) = Some ''2024-01-01 08:30:00''"
  by (simp add: present_mark_user_present calm_simps)

text \<open>
  Claim C8. Once a presence marker exists for \<open>(day, person_id)\<close>, marking the person
  present again with another time does not change the stored \<open>first_checkin_local\<close>: the
  engine checks \<^verbatim>\<open>is_user_marked_today\<close> before it calls the store, so a poll never changes
  an entry of the present table that holds a non-empty value, whatever the device
  reports and in every environment. The markers the engine writes are all non-empty
  (\<open>poll_once_markers_nonempty\<close>).
\<close>

theorem poll_once_keeps_marker:
  "truthy (present (db w) (d, p)) \<Longrightarrow>
     present (db (poll_once e users csvfile dev w)) (d, p) = present (db w) (d, p)"
proof (cases dev)
  case Unreachable
  then show ?thesis by (simp add: poll_once_def)
next
  case (Records recs)
  assume "truthy (present (db w) (d, p))"
  then have "present (db (snd (poll_loop e users csvfile (sort_key timestamp recs) w))) (d, p) =
      present (db w) (d, p)"
    by (rule poll_loop_keeps_marker)
  then show ?thesis using Records
    by (auto simp: poll_once_def split_beta split: sum.splits)
qed

lemma ann_marked:
  "present (db (snd (poll_rec calm roster ''./attendance_2024-01-01.csv'' (scan 1 1704096000)
      morning))) (''2024-01-01'', 1) = Some ''2024-01-01 08:00:00''"
  by (simp add: example_simps)

theorem poll_once_keeps_marker_witness:
  "let w1 = snd (poll_rec calm roster ''./attendance_2024-01-01.csv'' (scan 1 1704096000) morning)
   in truthy (present (db w1) (''2024-01-01'', 1)) \<and>
      present (db (poll_once calm roster ''./attendance_2024-01-01.csv''
          (Records [scan 1 1704097800]) w1)) (''2024-01-01'', 1) =
        Some ''2024-01-01 08:00:00''"
proof -
  let ?w1 = "snd (poll_rec calm roster ''./attendance_2024-01-01.csv'' (scan 1 1704096000) morning)"
  have t: "truthy (present (db ?w1) (''2024-01-01'', 1))"
    by (simp add: ann_marked truthy_def)
  show ?thesis
    using t poll_once_keeps_marker [OF t, of calm roster "''./attendance_2024-01-01.csv''"
        "Records [scan 1 1704097800]"]
    by (simp add: Let_def ann_marked)
qed

subsection \<open>C5: an event of an unknown person\<close>

lemma utc_year_0: "utc (- 62135596801) = None"
  by (simp add: utc_def)

lemma py_int_year_0: "py_int (- 62135596801) = - 62135596801"
  by (simp add: py_int_def)

text \<open>
  Claim C5, as the code has it. The unknown-user line prints the time of the event, and
  \<^verbatim>\<open>datetime.fromtimestamp\<close> raises for a time outside the years 1 to 9999. A record of
  the unknown person 7 with such a timestamp comes first in the sorted batch, Ann's scan
  of 08:00 after it: the key of the first is inserted, no diagnostic line is printed, the
  exception ends the poll, and Ann's scan is not processed.
\<close>

theorem unknown_person_out_of_range:
  "(let w' = poll_once calm roster ''./attendance_2024-01-01.csv''
              (Records [scan 1 1704096000, scan 7 (- 62135596801)]) morning
    in map_of roster 7 = None \<and>
       trace w' = [Db_processed_inserted (- 62135596801), Printed (Poll_error Value_error)] \<and>
       processed (db w') = {- 62135596801} \<and>
       present (db w') (''2024-01-01'', 1) = None)"
  by (simp add: poll_once_def example_simps utc_year_0 py_int_year_0)

text \<open>
  Claim C5, amended. For an event whose person is not in the roster, in every
  environment the loop body leaves the present table and every ledger as they were.
  When the two statements on \<open>processed\<close> do not fail and the timestamp is one that
  \<^verbatim>\<open>datetime.fromtimestamp\<close> accepts, the body ends normally, so the loop goes on with the
  next event; the key is in \<open>processed\<close> afterwards; and when the key was new, what the
  body did is exactly: insert the key, then print the unknown-user line. When the
  statements do not fail, the key is new and the timestamp is refused, the key is inserted
  and the body raises, which ends the poll.
\<close>

theorem unknown_person_safety:
  assumes "map_of users (user_id r) = None"
  shows "present (db (snd (poll_rec e users csvfile r w))) = present (db w) \<and>
         files (snd (poll_rec e users csvfile r w)) = files w \<and>
         (\<not> db_fault e (Select_processed (py_int (timestamp r))) \<and>
          \<not> db_fault e (Insert_processed (py_int (timestamp r))) \<and>
          fromtimestamp e (py_int (timestamp r)) = Some dt \<longrightarrow>
            fst (poll_rec e users csvfile r w) = Inr () \<and>
            py_int (timestamp r) \<in> processed (db (snd (poll_rec e users csvfile r w))) \<and>
            trace (snd (poll_rec e users csvfile r w)) =
              trace w @
              (if py_int (timestamp r) \<in> processed (db w) then []
               else [Db_processed_inserted (py_int (timestamp r)),
                     Printed (Unknown_user (user_id r) (strftime dt))]) \<and>
            poll_loop e users csvfile (r # rs) w =
              poll_loop e users csvfile rs (snd (poll_rec e users csvfile r w))) \<and>
         (\<not> db_fault e (Select_processed (py_int (timestamp r))) \<and>
          \<not> db_fault e (Insert_processed (py_int (timestamp r))) \<and>
          py_int (timestamp r) \<notin> processed (db w) \<and>
          fromtimestamp e (py_int (timestamp r)) = None \<longrightarrow>
            fst (poll_rec e users csvfile r w) = Inl Value_error \<and>
            py_int (timestamp r) \<in> processed (db (snd (poll_rec e users csvfile r w))) \<and>
            poll_loop e users csvfile (r # rs) w =
              (Inl Value_error, snd (poll_rec e users csvfile r w)))"
proof -
  let ?k = "py_int (timestamp r)"
  let ?res = "poll_rec e users csvfile r w"
  have frame: "present (db (snd ?res)) = present (db w) \<and> files (snd ?res) = files w"
    using assms unfolding poll_rec_def Let_def
    by (auto simp: body_simps split: sum.splits bool.splits option.splits)
  have body: "fst ?res = Inr () \<and> ?k \<in> processed (db (snd ?res)) \<and>
      trace (snd ?res) =
        trace w @
        (if ?k \<in> processed (db w) then []
         else [Db_processed_inserted ?k, Printed (Unknown_user (user_id r) (strftime dt))])"
    if "\<not> db_fault e (Select_processed ?k)" "\<not> db_fault e (Insert_processed ?k)"
      "fromtimestamp e ?k = Some dt"
    using assms that unfolding poll_rec_def Let_def
    by (auto simp: split_beta is_epoch_processed_def mark_epoch_processed_def
        device_epoch_to_local_str_def split: sum.splits bool.splits)
  have fails: "fst ?res = Inl Value_error \<and> ?k \<in> processed (db (snd ?res))"
    if "\<not> db_fault e (Select_processed ?k)" "\<not> db_fault e (Insert_processed ?k)"
      "?k \<notin> processed (db w)" "fromtimestamp e ?k = None"
    using assms that unfolding poll_rec_def Let_def
    by (auto simp: split_beta is_epoch_processed_def mark_epoch_processed_def
        device_epoch_to_local_str_def split: sum.splits bool.splits)
  have loop: "poll_loop e users csvfile (r # rs) w = poll_loop e users csvfile rs (snd ?res)"
    if "fst ?res = Inr ()"
    using that by (cases ?res) simp
  have stop: "poll_loop e users csvfile (r # rs) w = (Inl Value_error, snd ?res)"
    if "fst ?res = Inl Value_error"
    using that by (cases ?res) simp
  from frame body fails loop stop show ?thesis
    by blast
qed

theorem unknown_person_safety_witness:
  "let w1 = snd (poll_rec calm roster ''./attendance_2024-01-01.csv'' (scan 7 1704096000) morning)
   in map_of roster (user_id (scan 7 1704096000)) = None \<and>
      present (db w1) = present (db morning) \<and> files w1 = files morning \<and>
      processed (db w1) = {1704096000} \<and>
      trace w1 = [Db_processed_inserted 1704096000,
                  Printed (Unknown_user 7 ''2024-01-01 08:00:00'')] \<and>
      fst (poll_rec calm roster ''./attendance_2024-01-01.csv'' (scan 7 1704096000) morning) =
        Inr ()"
proof -
  have u: "map_of roster (user_id (scan 7 1704096000)) = None"
    by (simp add: roster_def scan_def)
  have p: "processed (db (snd (poll_rec calm roster ''./attendance_2024-01-01.csv''
      (scan 7 1704096000) morning))) = {1704096000}"
    by (simp add: example_simps)
  have t: "trace morning = []" "processed (db morning) = {}"
    by (simp_all add: morning_def)
  show ?thesis
    using u p unknown_person_safety [OF u, of calm "''./attendance_2024-01-01.csv''" morning
        eight]
    by (simp add: Let_def t calm_simps utc_0800 str_0800 scan_def py_int_whole)
qed

subsection \<open>C7: what \<^verbatim>\<open>mark_epoch_processed\<close> returns\<close>

text \<open>
  Claim C7, as the code has it. For a key that is not yet in \<open>processed\<close> the call inserts
  it, and its value is \<^verbatim>\<open>None\<close>, not \<^verbatim>\<open>True\<close>.
\<close>

theorem mark_epoch_processed_not_true:
  "1704096000 \<notin> processed (db morning) \<and>
   fst (mark_epoch_processed calm 1704096000 morning) = Inr PyNone \<and>
   fst (mark_epoch_processed calm 1704096000 morning) \<noteq> Inr (PyBool True)"
  by (simp add: mark_epoch_processed_def calm_simps morning_def)

text \<open>
  Claim C7, amended. \<^verbatim>\<open>mark_epoch_processed\<close> returns no boolean: unless the insert
  statement fails, its value is \<^verbatim>\<open>None\<close> whether the key was new or already there. A new
  key is inserted; a key already there leaves the world as it is. Whether a key is there
  is what \<^verbatim>\<open>is_epoch_processed\<close> answers, and \<^verbatim>\<open>poll_once\<close> asks it first.
\<close>

theorem mark_epoch_processed_returns_none:
  "fst (mark_epoch_processed e k w) =
     (if db_fault e (Insert_processed k) then Inl Sqlite_error else Inr PyNone) \<and>
   processed (db (snd (mark_epoch_processed e k w))) =
     (if db_fault e (Insert_processed k) then processed (db w) else insert k (processed (db w))) \<and>
   (k \<in> processed (db w) \<longrightarrow> snd (mark_epoch_processed e k w) = w)"
  by (auto simp: mark_epoch_processed_def)

theorem mark_epoch_processed_returns_none_witness:
  "fst (mark_epoch_processed calm 1704096000 morning) = Inr PyNone \<and>
   fst (mark_epoch_processed calm 1704096000
          (snd (mark_epoch_processed calm 1704096000 morning))) = Inr PyNone \<and>
   processed (db (snd (mark_epoch_processed calm 1704096000 morning))) = {1704096000} \<and>
   snd (mark_epoch_processed calm 1704096000
          (snd (mark_epoch_processed calm 1704096000 morning))) =
     snd (mark_epoch_processed calm 1704096000 morning)"
  using mark_epoch_processed_returns_none [of calm 1704096000 morning]
    mark_epoch_processed_returns_none [of calm 1704096000
      "snd (mark_epoch_processed calm 1704096000 morning)"]
  by (simp add: calm_simps morning_def)

subsection \<open>C3: the order of the two writes\<close>

text \<open>
  Claim C3, as the code has it. Ann's first scan of the day: the body inserts the key,
  rewrites the ledger file, and only then writes the presence marker. The marker write
  does not come before the ledger write.
\<close>

theorem ledger_written_before_marker:
  "trace (snd (poll_rec calm roster ''./attendance_2024-01-01.csv'' (scan 1 1704096000) morning)) =
     [Db_processed_inserted 1704096000,
      File_written ''./attendance_2024-01-01.csv'',
      Db_present_replaced ''2024-01-01'' 1 ''2024-01-01 08:00:00'',
      Printed (Marked_present ''Ann'' 1 ''2024-01-01 08:00:00'' ''attendance_2024-01-01.csv'')] \<and>
   \<not> precedes (Db_present_replaced ''2024-01-01'' 1 ''2024-01-01 08:00:00'')
       (File_written ''./attendance_2024-01-01.csv'')
       (trace (snd (poll_rec calm roster ''./attendance_2024-01-01.csv'' (scan 1 1704096000)
          morning)))"
  by (simp add: example_simps)

text \<open>What the loop body adds to the trace.\<close>

lemma trace_poll_rec:
  "take (length (trace w)) (trace (snd (poll_rec e users csvfile r w))) = trace w"
  unfolding poll_rec_def Let_def
  by (auto simp: split_beta is_epoch_processed_def mark_epoch_processed_def
      is_user_marked_today_def mark_user_present_def update_csv_mark_present_def
      device_epoch_to_local_str_def
      split: sum.splits bool.splits option.splits)

lemma no_ledger_write_after_marker:
  "\<not> precedes (Db_present_replaced d p s) (File_written f)
       (drop (length (trace w)) (trace (snd (poll_rec e users csvfile r w))))"
  unfolding poll_rec_def Let_def
  by (auto simp: split_beta is_epoch_processed_def mark_epoch_processed_def
      is_user_marked_today_def mark_user_present_def update_csv_mark_present_def
      device_epoch_to_local_str_def
      split: sum.splits bool.splits option.splits)

text \<open>
  Claim C3, amended. In the apply step the ledger write comes before the store write,
  never after it. For every event and in every environment, what the loop body adds to
  the trace holds no ledger write after a write of a presence marker. For a newly
  qualifying event (new key, person in the roster, a timestamp that
  \<^verbatim>\<open>datetime.fromtimestamp\<close> accepts, no non-empty marker for the day of the event), when
  the ledger file exists and no statement fails, the body performs, in this order: the
  insert into \<open>processed\<close>; the rewrite of the ledger file, if the person has a row in it
  that is not yet Present, and no ledger write otherwise; the write of the presence
  marker; the print.
\<close>

theorem write_order:
  "(\<forall>d p s f. \<not> precedes (Db_present_replaced d p s) (File_written f)
       (drop (length (trace w)) (trace (snd (poll_rec e users csvfile r w))))) \<and>
   take (length (trace w)) (trace (snd (poll_rec e users csvfile r w))) = trace w \<and>
   (py_int (timestamp r) \<notin> processed (db w) \<and>
    map_of users (user_id r) \<noteq> None \<and>
    fromtimestamp e (py_int (timestamp r)) = Some dt \<and>
    \<not> truthy (present (db w) (day_str_for_dt dt, user_id r)) \<and>
    files w csvfile = Some rows \<and>
    (\<forall>op. \<not> db_fault e op) \<longrightarrow>
      drop (length (trace w)) (trace (snd (poll_rec e users csvfile r w))) =
        [Db_processed_inserted (py_int (timestamp r))] @
        (if list_ex (\<lambda>rr. rid rr = user_id r \<and> rstatus rr \<noteq> ''Present'') rows
         then [File_written csvfile] else []) @
        [Db_present_replaced (day_str_for_dt dt) (user_id r) (strftime dt),
         Printed (Marked_present (user_name users (user_id r)) (user_id r) (strftime dt)
           (basename csvfile))])"
proof -
  have order: "drop (length (trace w)) (trace (snd (poll_rec e users csvfile r w))) =
        [Db_processed_inserted (py_int (timestamp r))] @
        (if list_ex (\<lambda>rr. rid rr = user_id r \<and> rstatus rr \<noteq> ''Present'') rows
         then [File_written csvfile] else []) @
        [Db_present_replaced (day_str_for_dt dt) (user_id r) (strftime dt),
         Printed (Marked_present (user_name users (user_id r)) (user_id r) (strftime dt)
           (basename csvfile))]"
    if "py_int (timestamp r) \<notin> processed (db w)" "map_of users (user_id r) \<noteq> None"
      "fromtimestamp e (py_int (timestamp r)) = Some dt"
      "\<not> truthy (present (db w) (day_str_for_dt dt, user_id r))"
      "files w csvfile = Some rows" "\<forall>op. \<not> db_fault e op"
    using that unfolding poll_rec_def Let_def
    by (auto simp: split_beta is_epoch_processed_def mark_epoch_processed_def
        is_user_marked_today_def mark_user_present_def update_csv_mark_present_def
        device_epoch_to_local_str_def Let_def
        split: sum.splits bool.splits)
  from no_ledger_write_after_marker [of _ _ _ _ w e users csvfile r]
    trace_poll_rec [of w e users csvfile r] order
  show ?thesis
    by blast
qed

theorem write_order_witness:
  "precedes (File_written ''./attendance_2024-01-01.csv'')
     (Db_present_replaced ''2024-01-01'' 1 ''2024-01-01 08:00:00'')
     (trace (snd (poll_rec calm roster ''./attendance_2024-01-01.csv'' (scan 1 1704096000)
        morning))) \<and>
   \<not> precedes (Db_present_replaced ''2024-01-01'' 1 ''2024-01-01 08:00:00'')
     (File_written ''./attendance_2024-01-01.csv'')
     (trace (snd (poll_rec calm roster ''./attendance_2024-01-01.csv'' (scan 1 1704096000)
        morning)))"
proof -
  have m: "trace morning = []" "processed (db morning) = {}"
    "present (db morning) (''2024-01-01'', 1) = None"
    "files morning ''./attendance_2024-01-01.csv'' =
      Some [\<lparr>rid = 1, rname = ''Ann'', rstatus = ''Absent'', rfirst_checkin_local = []\<rparr>,
            \<lparr>rid = 2, rname = ''Bob'', rstatus = ''Absent'', rfirst_checkin_local = []\<rparr>]"
    by (simp_all add: morning_def)
  show ?thesis
    using write_order [of morning calm roster "''./attendance_2024-01-01.csv''"
        "scan 1 1704096000" eight
        "[\<lparr>rid = 1, rname = ''Ann'', rstatus = ''Absent'', rfirst_checkin_local = []\<rparr>,
          \<lparr>rid = 2, rname = ''Bob'', rstatus = ''Absent'', rfirst_checkin_local = []\<rparr>]"]
    by (simp add: m scan_def py_int_whole calm_simps utc_0800 str_0800 day_0800 roster_def
        truthy_def)
qed

text \<open>
  A person of the roster with no row in the ledger file: the marker is written and the
  ledger is not.
\<close>

lemma marker_without_ledger_write:
  "trace (snd (poll_rec calm [(1, ''Ann''), (2, ''Bob''), (3, ''Cy'')]
      ''./attendance_2024-01-01.csv'' (scan 3 1704096000) morning)) =
     [Db_processed_inserted 1704096000,
      Db_present_replaced ''2024-01-01'' 3 ''2024-01-01 08:00:00'',
      Printed (Marked_present ''Cy'' 3 ''2024-01-01 08:00:00'' ''attendance_2024-01-01.csv'')]"
  by (simp add: example_simps)

subsection \<open>C6: a failing store statement\<close>

lemma poll_loop_append:
  "poll_loop e users csvfile (xs @ ys) w =
     (case poll_loop e users csvfile xs w of
        (Inl x, w1) \<Rightarrow> (Inl x, w1)
      | (Inr u, w1) \<Rightarrow> poll_loop e users csvfile ys w1)"
  by (induction xs arbitrary: w) (auto split: prod.splits sum.splits)

text \<open>
  Claim C6, as the code has it. Ann scans at 08:00 and Bob at 08:30; writing Ann's marker
  fails. The poll prints the error and ends: Bob's event is not processed in this poll
  (its key is not in \<open>processed\<close>, Bob has no marker, his ledger row is Absent), although
  with no failure the same poll marks Bob present.
\<close>

theorem store_fault_abandons_batch:
  "(let w' = poll_once flaky roster ''./attendance_2024-01-01.csv''
              (Records [scan 1 1704096000, scan 2 1704097800]) morning
    in processed (db w') = {1704096000} \<and>
       present (db w') (''2024-01-01'', 2) = None \<and>
       map_option (map rstatus) (files w' ''./attendance_2024-01-01.csv'') =
         Some [''Present'', ''Absent''] \<and>
       last (trace w') = Printed (Poll_error Sqlite_error)) \<and>
   present (db (poll_once calm roster ''./attendance_2024-01-01.csv''
      (Records [scan 1 1704096000, scan 2 1704097800]) morning)) (''2024-01-01'', 2) =
     Some ''2024-01-01 08:30:00''"
  by (simp add: poll_once_def example_simps flaky_simps)

text \<open>
  Claim C6, amended. An exception in the loop body of one event, a failing store
  statement included, ends the whole poll: \<^verbatim>\<open>poll_once\<close> prints the poll error and returns
  the world as that event left it. The events after it in the sorted batch are not
  processed in this poll, whatever they are.
\<close>

theorem fault_ends_the_poll:
  assumes "sort_key timestamp recs = pre @ r # rest"
    and "poll_loop e users csvfile pre w = (Inr (), w1)"
    and "poll_rec e users csvfile r w1 = (Inl x, w2)"
  shows "poll_once e users csvfile (Records recs) w = emit [Printed (Poll_error x)] w2"
  using assms by (simp add: poll_once_def poll_loop_append)

theorem fault_ends_the_poll_witness:
  "poll_once flaky roster ''./attendance_2024-01-01.csv''
     (Records [scan 2 1704097800, scan 1 1704096000]) morning =
   emit [Printed (Poll_error Sqlite_error)]
     (snd (poll_rec flaky roster ''./attendance_2024-01-01.csv'' (scan 1 1704096000) morning))"
proof -
  have s: "sort_key timestamp [scan 2 1704097800, scan 1 1704096000] =
      [] @ scan 1 1704096000 # [scan 2 1704097800]"
    by (simp add: scan_def)
  have p: "poll_loop flaky roster ''./attendance_2024-01-01.csv'' [] morning = (Inr (), morning)"
    by simp
  have r: "poll_rec flaky roster ''./attendance_2024-01-01.csv'' (scan 1 1704096000) morning =
      (Inl Sqlite_error,
       snd (poll_rec flaky roster ''./attendance_2024-01-01.csv'' (scan 1 1704096000) morning))"
    by (simp add: example_simps flaky_simps)
  show ?thesis
    using fault_ends_the_poll [OF s p r] .
qed

subsection \<open>C2: the first scan of the day\<close>

text \<open>
  Claim C2, as the code has it. The device reports Ann's scan of 08:30 in one poll and
  her scan of 08:00 only in the next. Both are qualifying events, both are processed, and
  the present table keeps 08:30: not the time of the earliest of them.
\<close>

theorem earlier_scan_in_later_poll:
  "(let w1 = poll_once calm roster ''./attendance_2024-01-01.csv''
               (Records [scan 1 1704097800]) morning;
        w2 = poll_once calm roster ''./attendance_2024-01-01.csv''
               (Records [scan 1 1704097800, scan 1 1704096000]) w1
    in processed (db w2) = {1704096000, 1704097800} \<and>
       present (db w2) (''2024-01-01'', 1) = Some ''2024-01-01 08:30:00'')"
  by (simp add: poll_once_def example_simps insert_commute)

lemma event_str_nonempty: "event_str e r \<noteq> Some []"
  by (simp add: event_str_def strftime_nonempty)

text \<open>
  The loop body when no statement fails, the ledger file exists and the timestamp is
  accepted.
\<close>

lemma poll_rec_calm:
  assumes nf: "\<forall>op. \<not> db_fault e op" and fx: "files w csvfile \<noteq> None"
    and ts: "fromtimestamp e (py_int (timestamp r)) = Some dt"
  shows "fst (poll_rec e users csvfile r w) = Inr ()"
    and "files (snd (poll_rec e users csvfile r w)) csvfile \<noteq> None"
    and "processed (db (snd (poll_rec e users csvfile r w))) =
           insert (py_int (timestamp r)) (processed (db w))"
    and "present (db (snd (poll_rec e users csvfile r w))) =
           (if py_int (timestamp r) \<in> processed (db w) \<or> map_of users (user_id r) = None \<or>
               truthy (present (db w) (day_str_for_dt dt, user_id r))
            then present (db w)
            else (present (db w))((day_str_for_dt dt, user_id r) \<mapsto> strftime dt))"
proof -
  let ?k = "py_int (timestamp r)"
  let ?w1 = "snd (mark_epoch_processed e ?k w)"
  have fx1: "files ?w1 csvfile \<noteq> None"
    using fx by simp
  from fst_update_csv [OF fx1] obtain b
    where b: "fst (update_csv_mark_present csvfile (user_id r) (strftime dt) ?w1) = Inr b"
    by blast
  have f2: "files (snd (update_csv_mark_present csvfile (user_id r) (strftime dt) ?w1)) csvfile
      \<noteq> None"
    using fx1 by (rule files_update_csv)
  show "fst (poll_rec e users csvfile r w) = Inr ()"
    using nf b ts unfolding poll_rec_def Let_def
    by (auto simp: body_simps split: sum.splits bool.splits)
  show "files (snd (poll_rec e users csvfile r w)) csvfile \<noteq> None"
    using nf b fx f2 ts unfolding poll_rec_def Let_def
    by (auto simp: body_simps split: sum.splits bool.splits)
  show "processed (db (snd (poll_rec e users csvfile r w))) = insert ?k (processed (db w))"
    using nf b ts unfolding poll_rec_def Let_def
    by (auto simp: body_simps split: sum.splits bool.splits)
  show "present (db (snd (poll_rec e users csvfile r w))) =
           (if ?k \<in> processed (db w) \<or> map_of users (user_id r) = None \<or>
               truthy (present (db w) (day_str_for_dt dt, user_id r))
            then present (db w)
            else (present (db w))((day_str_for_dt dt, user_id r) \<mapsto> strftime dt))"
    using nf b ts unfolding poll_rec_def Let_def
    by (auto simp: body_simps split: sum.splits bool.splits)
qed

lemma first_seen_truthy: "truthy old \<Longrightarrow> first_seen e users S rs d p old = old"
  by (simp add: first_seen_def)

lemma first_seen_Cons:
  "first_seen e users S (r # rs) d p old =
     (if py_int (timestamp r) \<in> S then first_seen e users S rs d p old
      else if map_of users (user_id r) \<noteq> None \<and> user_id r = p \<and> event_day e r = Some d
      then (if truthy old then old else event_str e r)
      else first_seen e users (insert (py_int (timestamp r)) S) rs d p old)"
  by (auto simp: first_seen_def scans_of_def)

lemma poll_loop_calm:
  assumes nf: "\<forall>op. \<not> db_fault e op"
  shows "files w csvfile \<noteq> None \<Longrightarrow>
     \<forall>r\<in>set rs. fromtimestamp e (py_int (timestamp r)) \<noteq> None \<Longrightarrow>
     fst (poll_loop e users csvfile rs w) = Inr () \<and>
     present (db (snd (poll_loop e users csvfile rs w))) (d, p) =
       first_seen e users (processed (db w)) rs d p (present (db w) (d, p))"
proof (induction rs arbitrary: w)
  case Nil
  show ?case by (simp add: first_seen_def scans_of_def)
next
  case (Cons r rs)
  let ?k = "py_int (timestamp r)"
  let ?w1 = "snd (poll_rec e users csvfile r w)"
  from Cons.prems(2) obtain dt where ts: "fromtimestamp e ?k = Some dt"
    by auto
  note step = poll_rec_calm [OF nf Cons.prems(1) ts, of users]
  have loop: "poll_loop e users csvfile (r # rs) w = poll_loop e users csvfile rs ?w1"
    using step(1) by (cases "poll_rec e users csvfile r w") simp
  have rest: "\<forall>r\<in>set rs. fromtimestamp e (py_int (timestamp r)) \<noteq> None"
    using Cons.prems(2) by simp
  have ih: "fst (poll_loop e users csvfile rs ?w1) = Inr () \<and>
      present (db (snd (poll_loop e users csvfile rs ?w1))) (d, p) =
        first_seen e users (insert ?k (processed (db w))) rs d p (present (db ?w1) (d, p))"
    using Cons.IH [OF step(2) rest] by (simp add: step(3))
  have "first_seen e users (insert ?k (processed (db w))) rs d p (present (db ?w1) (d, p)) =
      first_seen e users (processed (db w)) (r # rs) d p (present (db w) (d, p))"
    by (auto simp: step(4) first_seen_Cons first_seen_truthy insert_absorb truthy_def
        strftime_nonempty event_day_def event_str_def ts)
  with ih loop show ?case by simp
qed

lemma set_qualifying: "set (qualifying users S rs) \<subseteq> set rs"
  by (induction rs arbitrary: S) (auto split: if_splits)

lemma sorted_qualifying:
  "sorted (map f rs) \<Longrightarrow> sorted (map f (qualifying users S rs))"
proof (induction rs arbitrary: S)
  case Nil
  then show ?case by simp
next
  case (Cons r rs)
  from Cons.prems have tl: "sorted (map f rs)" and hd: "\<forall>x\<in>set rs. f r \<le> f x"
    by auto
  have "\<forall>x\<in>set (qualifying users T rs). f r \<le> f x" for T
    using hd set_qualifying [of users T rs] by blast
  with Cons.IH [OF tl] show ?case
    by auto
qed

text \<open>
  Claim C2, amended. \<^verbatim>\<open>poll_once\<close> processes the batch sorted by timestamp, ascending,
  events of equal timestamp in their input order. When no statement fails, the ledger
  file exists and every timestamp of the batch is one \<^verbatim>\<open>datetime.fromtimestamp\<close> accepts,
  the entry of the present table for any day \<open>d\<close> and person \<open>p\<close> after the poll is
  \<open>first_seen\<close>: an entry that held a non-empty value before the poll keeps it, also
  against qualifying events of an earlier time; otherwise the entry is the time text of
  the first of the qualifying events of \<open>p\<close> on \<open>d\<close> in the sorted batch, which is the one
  of least timestamp, and the later ones do not change it; with no such event the entry
  is as before.
\<close>

theorem first_seen_invariant:
  assumes "\<forall>op. \<not> db_fault e op"
    and "files w csvfile \<noteq> None"
    and "\<forall>r\<in>set recs. fromtimestamp e (py_int (timestamp r)) \<noteq> None"
  shows "let batch = sort_key timestamp recs in
           sorted (map timestamp batch) \<and> mset batch = mset recs \<and>
           (\<forall>t. filter (\<lambda>r. timestamp r = t) batch = filter (\<lambda>r. timestamp r = t) recs) \<and>
           sorted (map timestamp (scans_of e users (processed (db w)) batch d p)) \<and>
           present (db (poll_once e users csvfile (Records recs) w)) (d, p) =
             first_seen e users (processed (db w)) batch d p (present (db w) (d, p))"
proof -
  let ?batch = "sort_key timestamp recs"
  have s: "sorted (map timestamp ?batch)"
    by (rule sorted_sort_key)
  have q: "sorted (map timestamp (scans_of e users (processed (db w)) ?batch d p))"
    unfolding scans_of_def by (rule sorted_filter [OF sorted_qualifying [OF s]])
  have st: "\<forall>t. filter (\<lambda>r. timestamp r = t) ?batch = filter (\<lambda>r. timestamp r = t) recs"
    by (simp add: sort_key_stable)
  have ts: "\<forall>r\<in>set ?batch. fromtimestamp e (py_int (timestamp r)) \<noteq> None"
    using assms(3) by simp
  from poll_loop_calm [OF assms(1) assms(2) ts, of users d p]
  have "present (db (poll_once e users csvfile (Records recs) w)) (d, p) =
      first_seen e users (processed (db w)) ?batch d p (present (db w) (d, p))"
    by (auto simp: poll_once_def split_beta split: sum.splits)
  with s q st show ?thesis
    by (simp add: Let_def)
qed

theorem first_seen_invariant_witness:
  "present (db (poll_once calm roster ''./attendance_2024-01-01.csv''
      (Records [scan 1 1704097800, scan 2 1704097800, scan 1 1704096000]) morning))
     (''2024-01-01'', 1) = Some ''2024-01-01 08:00:00''"
proof -
  have nf: "\<forall>op. \<not> db_fault calm op"
    by (simp add: calm_simps)
  have fx: "files morning ''./attendance_2024-01-01.csv'' \<noteq> None"
    by (simp add: morning_def)
  have ts: "\<forall>r\<in>set [scan 1 1704097800, scan 2 1704097800, scan 1 1704096000].
      fromtimestamp calm (py_int (timestamp r)) \<noteq> None"
    by (simp add: scan_def py_int_whole calm_simps utc_0800 utc_0830)
  have m: "processed (db morning) = {}" "present (db morning) (''2024-01-01'', 1) = None"
    by (simp_all add: morning_def)
  show ?thesis
    using first_seen_invariant [OF nf fx ts, of roster "''2024-01-01''" 1]
    by (simp add: Let_def m first_seen_def scans_of_def event_day_def event_str_def truthy_def
        scan_def py_int_whole calm_simps roster_def utc_0800 utc_0830
        str_0800 day_0800 str_0830 day_0830)
qed

subsection \<open>C9: the day check\<close>

lemma iso_dawn: "isoformat (date_of dawn) = ''2024-01-02''"
  by (simp add: dawn_def text_defs)

lemmas day_check_defs = main_loop_tick_def ensure_csv_for_today_def active_day_def get_meta_def
  make_daily_csv_def set_meta_def load_users_def csv_path_def absent_row_def

text \<open>
  Claim C9, as the code has it. The pointer says 2024-01-01 and the time is five past
  midnight of 2024-01-02; \<^verbatim>\<open>users.csv\<close> lists three persons, the roster in memory two.
  The ledger of the new day is made from the roster in memory, before \<^verbatim>\<open>users.csv\<close> is
  read again: the iteration ends with three persons in the roster and two rows in the
  ledger. And when only the ledger file is missing, on the same day, the ledger is made
  anew and the roster is not read again at all.
\<close>

theorem ledger_made_from_old_roster:
  "(let (res, w') = main_loop_tick calm dawn (Records [])
                      \<lparr>ls_users = roster, ls_daystr = ''2024-01-01''\<rparr> enrolled
    in res = Inr \<lparr>ls_users = [(1, ''Ann''), (2, ''Bob''), (3, ''Cy'')],
                   ls_daystr = ''2024-01-02''\<rparr> \<and>
       map_option (map rid) (files w' ''./attendance_2024-01-02.csv'') = Some [1, 2] \<and>
       meta (db w') ''current_csv_date'' = Some ''2024-01-02'') \<and>
   (let (res, w') = main_loop_tick calm noon (Records [])
                      \<lparr>ls_users = roster, ls_daystr = ''2024-01-01''\<rparr>
                      (enrolled\<lparr>files := Map.empty\<rparr>)
    in res = Inr \<lparr>ls_users = roster, ls_daystr = ''2024-01-01''\<rparr> \<and>
       map_option (map rid) (files w' ''./attendance_2024-01-01.csv'') = Some [1, 2])"
  by (simp add: day_check_defs poll_once_def calm_simps dawn_def noon_def enrolled_def
      morning_def roster_def text_defs emit_def user_name_def Let_def)

lemma load_users_emit [simp]: "load_users (emit es w) = load_users w"
  by (simp add: load_users_def)

text \<open>
  Claim C9, amended. When the active day (the day before \<open>now\<close> when the hour of \<open>now\<close>
  is before the rollover hour, the day of \<open>now\<close> otherwise) differs from the stored
  pointer, or no ledger file of the active day exists, and the two statements on \<open>meta\<close> do
  not fail, then \<^verbatim>\<open>ensure_csv_for_today\<close> writes the ledger of the active day from the
  roster it is given: one Absent row with an empty check-in per key of that roster, sorted
  by person id, in place of whatever the file held; and it sets the pointer to the active
  day. It leaves \<open>processed\<close> and \<open>present\<close> alone and does not read \<^verbatim>\<open>users.csv\<close>. An
  iteration of the main loop gives it the roster the loop holds in memory, and polls with
  the ledger so made; it reads \<^verbatim>\<open>users.csv\<close> again only when the active day differs from
  the day the loop remembers, not when just the ledger file was missing.
\<close>

theorem day_check_materializes:
  assumes "active_day e now = Inr act"
    and "\<not> db_fault e (Select_meta ''current_csv_date'')"
    and "\<not> db_fault e (Replace_meta ''current_csv_date'' (isoformat act))"
    and "meta (db w) ''current_csv_date'' \<noteq> Some (isoformat act) \<or>
         files w (csv_path (isoformat act)) = None"
  shows "(let (res, w') = ensure_csv_for_today e now users w;
              rows = map (absent_row users) (sort (map fst users))
          in res = Inr (csv_path (isoformat act), isoformat act) \<and>
             files w' = (files w)(csv_path (isoformat act) \<mapsto> rows) \<and>
             map rid rows = sort (map fst users) \<and>
             list_all (\<lambda>row. rstatus row = ''Absent'' \<and> rfirst_checkin_local row = [] \<and>
                         rname row = user_name users (rid row)) rows \<and>
             (distinct (map fst users) \<longrightarrow> distinct (map rid rows)) \<and>
             meta (db w') = (meta (db w))(''current_csv_date'' \<mapsto> isoformat act) \<and>
             processed (db w') = processed (db w) \<and> present (db w') = present (db w) \<and>
             users_csv w' = users_csv w) \<and>
         fst (main_loop_tick e now dev ls w) =
           (if isoformat act = ls_daystr ls then Inr ls
            else case load_users w of
                   Inl x \<Rightarrow> Inl x
                 | Inr us \<Rightarrow> Inr \<lparr>ls_users = us, ls_daystr = isoformat act\<rparr>) \<and>
         (let w1 = snd (ensure_csv_for_today e now (ls_users ls) w);
              csvfile = csv_path (isoformat act)
          in files w1 csvfile =
               Some (map (absent_row (ls_users ls)) (sort (map fst (ls_users ls)))) \<and>
             main_loop_tick e now dev ls w =
               (if isoformat act = ls_daystr ls
                then (Inr ls, poll_once e (ls_users ls) csvfile dev w1)
                else case load_users w of
                       Inl x \<Rightarrow> (Inl x, w1)
                     | Inr us \<Rightarrow>
                         (Inr \<lparr>ls_users = us, ls_daystr = isoformat act\<rparr>,
                          poll_once e us csvfile dev
                            (emit [Printed (New_day (isoformat act) csvfile)] w1))))"
proof -
  let ?rows = "map (absent_row users) (sort (map fst users))"
  let ?d = "isoformat act"
  have made: "ensure_csv_for_today e now us w =
      (Inr (csv_path ?d, ?d),
       emit [Printed (Created (csv_path ?d))]
         (emit [Db_meta_replaced ''current_csv_date'' ?d]
           (emit [File_written (csv_path ?d)]
              (w\<lparr>files := (files w)(csv_path ?d \<mapsto>
                    map (absent_row us) (sort (map fst us)))\<rparr>)
            \<lparr>db := (db w)\<lparr>meta := (meta (db w))(''current_csv_date'' \<mapsto> ?d)\<rparr>\<rparr>)))" for us
    using assms
    by (auto simp: ensure_csv_for_today_def get_meta_def make_daily_csv_def set_meta_def
        Let_def emit_def)
  have ids: "map rid ?rows = sort (map fst users)"
    by (simp add: absent_row_def comp_def)
  have all: "list_all (\<lambda>row. rstatus row = ''Absent'' \<and> rfirst_checkin_local row = [] \<and>
      rname row = user_name users (rid row)) ?rows"
    by (simp add: list_all_iff absent_row_def)
  have ensure: "(let (res, w') = ensure_csv_for_today e now users w; rows = ?rows
          in res = Inr (csv_path ?d, ?d) \<and>
             files w' = (files w)(csv_path ?d \<mapsto> rows) \<and>
             map rid rows = sort (map fst users) \<and>
             list_all (\<lambda>row. rstatus row = ''Absent'' \<and> rfirst_checkin_local row = [] \<and>
                         rname row = user_name users (rid row)) rows \<and>
             (distinct (map fst users) \<longrightarrow> distinct (map rid rows)) \<and>
             meta (db w') = (meta (db w))(''current_csv_date'' \<mapsto> ?d) \<and>
             processed (db w') = processed (db w) \<and> present (db w') = present (db w) \<and>
             users_csv w' = users_csv w)"
    using ids all by (simp add: made [of users] Let_def emit_def)
  have tick: "fst (main_loop_tick e now dev ls w) =
           (if ?d = ls_daystr ls then Inr ls
            else case load_users w of
                   Inl x \<Rightarrow> Inl x
                 | Inr us \<Rightarrow> Inr \<lparr>ls_users = us, ls_daystr = ?d\<rparr>)"
    by (auto simp: main_loop_tick_def made [of "ls_users ls"] load_users_def emit_def
        split: sum.splits option.splits)
  have whole: "(let w1 = snd (ensure_csv_for_today e now (ls_users ls) w);
              csvfile = csv_path ?d
          in files w1 csvfile =
               Some (map (absent_row (ls_users ls)) (sort (map fst (ls_users ls)))) \<and>
             main_loop_tick e now dev ls w =
               (if ?d = ls_daystr ls
                then (Inr ls, poll_once e (ls_users ls) csvfile dev w1)
                else case load_users w of
                       Inl x \<Rightarrow> (Inl x, w1)
                     | Inr us \<Rightarrow>
                         (Inr \<lparr>ls_users = us, ls_daystr = ?d\<rparr>,
                          poll_once e us csvfile dev
                            (emit [Printed (New_day ?d csvfile)] w1))))"
    by (auto simp: main_loop_tick_def made [of "ls_users ls"] load_users_def emit_def Let_def
        split: sum.splits option.splits)
  from ensure tick whole show ?thesis
    by blast
qed

theorem day_check_materializes_witness:
  "(let (res, w') = main_loop_tick calm dawn Unreachable
                      \<lparr>ls_users = roster, ls_daystr = ''2024-01-01''\<rparr> enrolled
    in res = Inr \<lparr>ls_users = [(1, ''Ann''), (2, ''Bob''), (3, ''Cy'')],
                   ls_daystr = ''2024-01-02''\<rparr> \<and>
       files w' ''./attendance_2024-01-02.csv'' =
         Some [\<lparr>rid = 1, rname = ''Ann'', rstatus = ''Absent'', rfirst_checkin_local = []\<rparr>,
               \<lparr>rid = 2, rname = ''Bob'', rstatus = ''Absent'', rfirst_checkin_local = []\<rparr>] \<and>
       meta (db w') ''current_csv_date'' = Some ''2024-01-02'')"
proof -
  have a: "active_day calm dawn = Inr (date_of dawn)"
    by (simp add: active_day_def calm_simps)
  have b: "\<not> db_fault calm (Select_meta ''current_csv_date'')"
    by (simp add: calm_simps)
  have c: "\<not> db_fault calm (Replace_meta ''current_csv_date'' (isoformat (date_of dawn)))"
    by (simp add: calm_simps)
  have d: "meta (db enrolled) ''current_csv_date'' \<noteq> Some (isoformat (date_of dawn)) \<or>
      files enrolled (csv_path (isoformat (date_of dawn))) = None"
    by (simp add: iso_dawn enrolled_def morning_def)
  have u: "load_users enrolled = Inr [(1, ''Ann''), (2, ''Bob''), (3, ''Cy'')]"
    by (simp add: load_users_def enrolled_def)
  have m: "meta (db enrolled) = [''current_csv_date'' \<mapsto> ''2024-01-01'']"
    by (simp add: enrolled_def morning_def)
  from day_check_materializes [OF a b c d, of roster Unreachable
      "\<lparr>ls_users = roster, ls_daystr = ''2024-01-01''\<rparr>"]
  show ?thesis
    by (simp add: iso_dawn u m poll_once_def csv_path_def absent_row_def user_name_def
        roster_def Let_def split_beta)
qed

subsection \<open>C4: days apart\<close>

text \<open>
  The present table keeps days apart: the loop body changes no entry of a day other
  than the day of the event.
\<close>

lemma present_table_day_isolation:
  "event_day e r \<noteq> Some d2 \<Longrightarrow>
     present (db (snd (poll_rec e users csvfile r w))) (d2, p) = present (db w) (d2, p)"
  unfolding poll_rec_def Let_def event_day_def
  by (auto simp: body_simps split: sum.splits bool.splits option.splits)

text \<open>
  Claim C4, where the code departs from it. The ledger that the body rewrites is the file
  it was handed, the one of the active day, not the one of the day of the event. Ann's
  scan of 2024-01-01 08:00:00 reaches the program at five past midnight of 2024-01-02:
  the present table gets the marker of 2024-01-01 and none of 2024-01-02, the ledger of
  2024-01-01 still says Absent, and the ledger of 2024-01-02 says Present for Ann, with
  the time of the day before.
\<close>

theorem late_event_marks_active_ledger:
  "(let (res, w') = main_loop_tick calm dawn (Records [scan 1 1704096000])
                      \<lparr>ls_users = roster, ls_daystr = ''2024-01-01''\<rparr> morning
    in present (db w') (''2024-01-01'', 1) = Some ''2024-01-01 08:00:00'' \<and>
       present (db w') (''2024-01-02'', 1) = None \<and>
       files w' ''./attendance_2024-01-01.csv'' =
         Some [\<lparr>rid = 1, rname = ''Ann'', rstatus = ''Absent'', rfirst_checkin_local = []\<rparr>,
               \<lparr>rid = 2, rname = ''Bob'', rstatus = ''Absent'', rfirst_checkin_local = []\<rparr>] \<and>
       files w' ''./attendance_2024-01-02.csv'' =
         Some [\<lparr>rid = 1, rname = ''Ann'', rstatus = ''Present'',
                rfirst_checkin_local = ''2024-01-01 08:00:00''\<rparr>,
               \<lparr>rid = 2, rname = ''Bob'', rstatus = ''Absent'', rfirst_checkin_local = []\<rparr>])"
  by (simp add: day_check_defs poll_once_def example_simps iso_dawn)

subsection \<open>Scenarios of the specification\<close>

text \<open>
  The active day before the rollover hour: with \<^verbatim>\<open>ROLLOVER_HOUR = 4\<close>, at 02:00 of
  2024-03-01 the active day is 2024-02-29.
\<close>

lemma active_day_before_rollover:
  "active_day (calm\<lparr>rollover_hour := 4\<rparr>)
     \<lparr>dt_year = 2024, dt_month = 3, dt_day = 1, hour = 2, minute = 0, second = 0\<rparr> =
   Inr \<lparr>year = 2024, month = 2, day = 29\<rparr>"
  by (simp add: active_day_def minus_one_day_def date_of_def days_in_month_def is_leap_def)

text \<open>
  Rollover: the ledger of 2024-01-01 has Ann and Bob Absent; at five past midnight of
  2024-01-02 the device reports Ann's scan of 00:02. The ledger of the new day is made,
  Ann is Present in it at 00:02, and the ledger of the day before is as it was.
\<close>

lemma rollover_scenario:
  "(let (res, w') = main_loop_tick calm dawn (Records [scan 1 1704153720])
                      \<lparr>ls_users = roster, ls_daystr = ''2024-01-01''\<rparr> morning
    in present (db w') (''2024-01-02'', 1) = Some ''2024-01-02 00:02:00'' \<and>
       files w' ''./attendance_2024-01-01.csv'' = files morning ''./attendance_2024-01-01.csv'' \<and>
       files w' ''./attendance_2024-01-02.csv'' =
         Some [\<lparr>rid = 1, rname = ''Ann'', rstatus = ''Present'',
                rfirst_checkin_local = ''2024-01-02 00:02:00''\<rparr>,
               \<lparr>rid = 2, rname = ''Bob'', rstatus = ''Absent'', rfirst_checkin_local = []\<rparr>])"
  by (simp add: day_check_defs poll_once_def example_simps iso_dawn)

text \<open>
  A duplicate scan: Bob scans at 08:00 and at 08:30. One marker, of 08:00; the second
  scan prints the already-marked line and writes nothing.
\<close>

lemma duplicate_scan_scenario:
  "(let w' = poll_once calm roster ''./attendance_2024-01-01.csv''
              (Records [scan 2 1704096000, scan 2 1704097800]) morning
    in present (db w') (''2024-01-01'', 2) = Some ''2024-01-01 08:00:00'' \<and>
       trace w' =
         [Db_processed_inserted 1704096000,
          File_written ''./attendance_2024-01-01.csv'',
          Db_present_replaced ''2024-01-01'' 2 ''2024-01-01 08:00:00'',
          Printed (Marked_present ''Bob'' 2 ''2024-01-01 08:00:00''
            ''attendance_2024-01-01.csv''),
          Db_processed_inserted 1704097800,
          Printed (Scanned_again ''Bob'' 2 ''2024-01-01 08:30:00''
            (Some ''2024-01-01 08:00:00''))])"
  by (simp add: poll_once_def example_simps)

end
